theory Spec2Isabelle
  imports Main "HOL-Library.Multiset" "HOL-Library.Word" "HOL-Library.AList"
begin

text \<open>
  A verification development for the upload module of the action
  (\<open>findUploadableFiles\<close>, \<open>cfApiRequest\<close>, \<open>getProject\<close>, \<open>upload\<close>).
  The module is asynchronous JavaScript: a rejected promise or a thrown exception is a
  value \<open>Inl e\<close> of a sum type, the remote store is a state that every request may
  change, and the sequence of requests sent is recorded beside it.
\<close>

section \<open>Data model\<close>

text \<open>
  The interface \<open>UploadableFile\<close> of the upload module. A JavaScript number holding a
  byte count is a natural number here (every count below \<open>2 ^ 53\<close> is exact in a double).
  The two fields called \<open>size\<close> in the source carry a suffix, since \<open>size\<close> is a
  constant of HOL.
\<close>

record UploadableFile =
  absolutePath :: string
  size_file :: nat
  mime :: string
  hash :: string
  publicUrl :: string

text \<open>The object literal \<open>{ files: [], size: 0 }\<close> that the packer accumulates into.\<close>

record bucket =
  files :: "UploadableFile list"
  size_bucket :: nat


section \<open>Library functions the module imports\<close>

type_synonym byte = "8 word"

text \<open>
  Exceptions and rejected promises: \<open>Error m\<close> is the \<open>new Error(m)\<close> thrown by
  \<open>cfApiRequest\<close>; \<open>SystemError c\<close> is a rejected promise of \<open>fs/promises\<close> with the
  error code \<open>c\<close> (\<open>ENOENT\<close>, \<open>EACCES\<close>, \<open>EISDIR\<close>, ...); \<open>TypeError m\<close> is a rejected
  \<open>fetch\<close>; \<open>SyntaxError m\<close> is a rejected \<open>response.json()\<close>.
\<close>

datatype error = Error string | SystemError string | TypeError string | SyntaxError string

text \<open>\<open>Buffer.prototype.toString("hex")\<close>: two lower-case digits for each byte.\<close>

definition hexDigit :: "nat \<Rightarrow> char" where
  "hexDigit n = ''0123456789abcdef'' ! n"

definition toString_hex :: "byte list \<Rightarrow> string" where
  "toString_hex bs = concat (map (\<lambda>b. [hexDigit (unat b div 16), hexDigit (unat b mod 16)]) bs)"

text \<open>
  \<open>Buffer.prototype.toString("base64")\<close>: the standard alphabet, three bytes to four
  characters, padded with \<open>=\<close>.
\<close>

definition base64Digit :: "nat \<Rightarrow> char" where
  "base64Digit n = ''ABCDEFGHIJKLMNOPQRSTUVWXYZabcdefghijklmnopqrstuvwxyz0123456789+/'' ! n"

fun toString_base64 :: "byte list \<Rightarrow> string" where
  "toString_base64 (a # b # c # rest) =
     (let n = unat a * 65536 + unat b * 256 + unat c
      in [base64Digit (n div 262144), base64Digit (n div 4096 mod 64),
          base64Digit (n div 64 mod 64), base64Digit (n mod 64)]) @ toString_base64 rest"
| "toString_base64 [a, b] =
     (let n = unat a * 65536 + unat b * 256
      in [base64Digit (n div 262144), base64Digit (n div 4096 mod 64),
          base64Digit (n div 64 mod 64), CHR ''=''])"
| "toString_base64 [a] =
     (let n = unat a * 65536
      in [base64Digit (n div 262144), base64Digit (n div 4096 mod 64), CHR ''='', CHR ''=''])"
| "toString_base64 [] = []"

text \<open>The decimal digits of a number inside a template literal.\<close>

fun toString_number :: "nat \<Rightarrow> string" where
  "toString_number n =
     (if n < 10 then [''0123456789'' ! n]
      else toString_number (n div 10) @ [''0123456789'' ! (n mod 10)])"

declare toString_number.simps [simp del]

text \<open>
  \<open>String.prototype.split\<close> on a one-character separator and \<open>Array.prototype.join\<close>.
\<close>

fun splitFrom :: "char \<Rightarrow> string \<Rightarrow> string \<Rightarrow> string list" where
  "splitFrom c cur [] = [cur]"
| "splitFrom c cur (x # xs) =
     (if x = c then cur # splitFrom c [] xs else splitFrom c (cur @ [x]) xs)"

definition split_string :: "char \<Rightarrow> string \<Rightarrow> string list" where
  "split_string c s = splitFrom c [] s"

fun join_array :: "string \<Rightarrow> string list \<Rightarrow> string" where
  "join_array s [] = []"
| "join_array s [p] = p"
| "join_array s (p # q # ps) = p @ s @ join_array s (q # ps)"

text \<open>
  \<open>Object.fromEntries\<close>: an object with string keys is an association list in insertion
  order; setting a key that is present replaces its value in place.
\<close>

definition fromEntries :: "(string \<times> string) list \<Rightarrow> (string \<times> string) list" where
  "fromEntries entries = fold (\<lambda>(k, v) obj. AList.update k v obj) entries []"

text \<open>
  \<open>Promise.all\<close> over promises that do not touch shared state: the list of results, or
  a rejection when one of them rejects (the first in list order here; which rejection
  wins in JavaScript depends on timing).
\<close>

fun promiseAll :: "(error + 'a) list \<Rightarrow> error + 'a list" where
  "promiseAll [] = Inr []"
| "promiseAll (r # rs) =
     (case r of
        Inl e \<Rightarrow> Inl e
      | Inr x \<Rightarrow> (case promiseAll rs of Inl e \<Rightarrow> Inl e | Inr xs \<Rightarrow> Inr (x # xs)))"

text \<open>
  What the module takes from its platform and from packages outside the repository:
  the build-time global \<open>FCFP_VERSION\<close>, the functions of \<open>path\<close> (\<open>sep\<close> is one
  character on every platform), \<open>blake3\<close> of \<open>@noble/hashes\<close> with its \<open>dkLen\<close> option as
  second argument, and \<open>lookup\<close> of \<open>mime-types\<close> (\<open>None\<close> for its result \<open>false\<close>).
\<close>

record env =
  FCFP_VERSION :: string
  sep :: char
  resolve :: "string list \<Rightarrow> string"
  relative :: "string \<Rightarrow> string \<Rightarrow> string"
  join :: "string list \<Rightarrow> string"
  extname :: "string \<Rightarrow> string"
  blake3 :: "string \<Rightarrow> nat \<Rightarrow> byte list"
  mimeLookup :: "string \<Rightarrow> string option"

text \<open>
  The file system as \<open>fs/promises\<close> shows it during one run: \<open>readdir\<close> with
  \<open>{ recursive: true, withFileTypes: true }\<close>, the \<open>size\<close> of \<open>stat\<close>, \<open>readFile\<close> into a
  buffer and \<open>readFile\<close> with the encoding \<open>utf8\<close>.
\<close>

record Dirent =
  name :: string
  path :: string
  isFile :: bool

record fs =
  readdir :: "string \<Rightarrow> error + Dirent list"
  stat :: "string \<Rightarrow> error + nat"
  readFile :: "string \<Rightarrow> error + byte list"
  readFile_utf8 :: "string \<Rightarrow> error + string"

section \<open>Requests and responses\<close>

record metadata =
  contentType :: string

record UploadFileGroupPayload =
  key :: string
  value_payload :: string
  metadata :: metadata
  base64 :: bool

text \<open>
  A field of the form: a string, the string \<open>JSON.stringify(obj)\<close> of an object (kept as
  the object), or \<open>new File([contents], filename)\<close>.
\<close>

datatype formValue =
    StringValue string
  | JSON_stringify "(string \<times> string) list"
  | File string string

text \<open>
  The \<open>body\<close> argument of \<open>cfApiRequest\<close>: \<open>undefined\<close>, \<open>{ hashes: [...] }\<close>, the payload
  array of one bucket, or a \<open>FormData\<close> with its entries in the order of \<open>append\<close>. A body
  that is not a form is sent as \<open>JSON.stringify(body)\<close>; the request keeps the value.
\<close>

datatype body =
    Undefined
  | Hashes "string list"
  | Payload "UploadFileGroupPayload list"
  | FormData "(string \<times> formValue) list"

record request =
  method_request :: string
  url_request :: string
  userAgent :: string
  authorization :: string
  body_request :: body

text \<open>
  A response: its status, the body as \<open>response.text()\<close> gives it, and the field \<open>result\<close>
  of what \<open>response.json()\<close> gives, at the type that the caller of \<open>cfApiRequest<Result>\<close>
  asserts.
\<close>

record 'r response =
  status :: nat
  text_response :: string
  json_result :: "error + 'r"

text \<open>\<open>response.ok\<close>, which the Fetch standard defines as a status from 200 to 299.\<close>

definition ok :: "'r response \<Rightarrow> bool" where
  "ok response \<longleftrightarrow> 200 \<le> status response \<and> status response \<le> 299"

text \<open>
  \<open>fetch\<close> at the result type \<open>'r\<close>: it answers a request in a state \<open>'n\<close> of the network
  and the remote store, and leaves a new state.
\<close>

type_synonym ('n, 'r) fetch = "request \<Rightarrow> 'n \<Rightarrow> (error + 'r response) \<times> 'n"

record DirectUploadsJWT =
  jwt :: string

text \<open>
  \<open>fetch\<close> at the five result types of the module; \<open>'p\<close> and \<open>'d\<close> stand for the types
  \<open>Project\<close> and \<open>Deployment\<close> of \<open>@cloudflare/types\<close>. The two calls whose result is
  dropped are at type \<open>unit\<close>.
\<close>

record ('n, 'p, 'd) remote =
  fetch_Project :: "('n, 'p) fetch"
  fetch_DirectUploadsJWT :: "('n, DirectUploadsJWT) fetch"
  fetch_strings :: "('n, string list) fetch"
  fetch_unknown :: "('n, unit) fetch"
  fetch_Deployment :: "('n, 'd) fetch"

text \<open>The state of a run: the network state and the requests sent so far, oldest first.\<close>

type_synonym 'n run = "'n \<times> request list"


section \<open>The content scanner\<close>

definition ignoredFiles :: "string set" where
  "ignoredFiles = {''_worker.js'', ''_redirects'', ''_headers'', ''_routes.json''}"

text \<open>
  The callback of \<open>files.map\<close> in \<open>findUploadableFiles\<close>: the record of one directory
  entry. The fingerprint is the hex rendering of the 16-byte BLAKE3 digest of the
  base64 text of the contents followed by \<open>extname(absolutePath).slice(1)\<close>.
\<close>

definition hashData :: "env \<Rightarrow> string \<Rightarrow> byte list \<Rightarrow> string" where
  "hashData env absPath contents =
     toString_base64 contents @ drop 1 (extname env absPath)"

definition uploadableFile :: "env \<Rightarrow> fs \<Rightarrow> string \<Rightarrow> Dirent \<Rightarrow> error + UploadableFile" where
  "uploadableFile env fs resolvedDir file =
     (let absPath = resolve env [resolvedDir, path file, name file];
          url = ''/'' @ join_array ''/''
                  (split_string (sep env) (relative env resolvedDir absPath))
      in case stat fs absPath of
           Inl e \<Rightarrow> Inl e
         | Inr bytes \<Rightarrow>
             (case readFile fs absPath of
                Inl e \<Rightarrow> Inl e
              | Inr contents \<Rightarrow>
                  Inr \<lparr>absolutePath = absPath,
                       size_file = bytes,
                       mime = (case mimeLookup env absPath of
                                 None \<Rightarrow> ''application/octet-stream''
                               | Some m \<Rightarrow> if m = [] then ''application/octet-stream'' else m),
                       hash = toString_hex (blake3 env (hashData env absPath contents) 16),
                       publicUrl = url\<rparr>))"

text \<open>
  The entries that survive the two filters: regular files whose name is not in
  \<open>ignoredFiles\<close>.
\<close>

definition uploadableEntries :: "Dirent list \<Rightarrow> Dirent list" where
  "uploadableEntries dirEntries =
     filter (\<lambda>entry. name entry \<notin> ignoredFiles) (filter (\<lambda>entry. isFile entry) dirEntries)"

definition findUploadableFiles :: "env \<Rightarrow> fs \<Rightarrow> string \<Rightarrow> error + UploadableFile list" where
  "findUploadableFiles env fs dir =
     (let resolvedDir = resolve env [dir]
      in case readdir fs resolvedDir of
           Inl e \<Rightarrow> Inl e
         | Inr dirEntries \<Rightarrow>
             promiseAll (map (uploadableFile env fs resolvedDir) (uploadableEntries dirEntries)))"

section \<open>The request helper\<close>

definition cfBaseUrl :: string where
  "cfBaseUrl = ''https://api.cloudflare.com/client/v4''"

definition userAgent_of :: "env \<Rightarrow> string" where
  "userAgent_of env = ''fast-pages-upload/'' @ FCFP_VERSION env"

text \<open>
  \<open>cfApiRequest\<close>: the request is sent (and recorded); a rejected \<open>fetch\<close> propagates; a
  response that is not \<open>ok\<close> throws the error with the status and the body text; otherwise
  the \<open>result\<close> field of the JSON body is returned.
\<close>

definition cfApiRequest ::
  "env \<Rightarrow> ('n, 'r) fetch \<Rightarrow> string \<Rightarrow> string \<Rightarrow> string \<Rightarrow> body \<Rightarrow> 'n run \<Rightarrow> (error + 'r) \<times> 'n run" where
  "cfApiRequest env fetch method url token body s =
     (let request = \<lparr>method_request = method,
                     url_request = cfBaseUrl @ url,
                     userAgent = userAgent_of env,
                     authorization = ''Bearer '' @ token,
                     body_request = body\<rparr>
      in case fetch request (fst s) of
           (answer, n) \<Rightarrow>
             ((case answer of
                 Inl e \<Rightarrow> Inl e
               | Inr response \<Rightarrow>
                   if \<not> ok response
                   then Inl (Error (''Cloudflare API request failed with status ''
                                    @ toString_number (status response) @ '': ''
                                    @ text_response response))
                   else json_result response),
              (n, snd s @ [request])))"

definition getProject ::
  "env \<Rightarrow> ('n, 'p, 'd) remote \<Rightarrow> string \<Rightarrow> string \<Rightarrow> string \<Rightarrow> 'n run \<Rightarrow> (error + 'p) \<times> 'n run" where
  "getProject env remote cfToken accountId projectName s =
     cfApiRequest env (fetch_Project remote) ''GET''
       (''/accounts/'' @ accountId @ ''/pages/projects/'' @ projectName) cfToken Undefined s"

section \<open>The bucket packer\<close>

text \<open>
  \<open>Array.prototype.reduce\<close> with the three-argument callback \<open>(accumulator, element, index)\<close>.
\<close>

fun reduce :: "('b \<Rightarrow> 'a \<Rightarrow> nat \<Rightarrow> 'b) \<Rightarrow> 'a list \<Rightarrow> nat \<Rightarrow> 'b \<Rightarrow> 'b" where
  "reduce f [] i acc = acc"
| "reduce f (x # xs) i acc = reduce f xs (Suc i) (f acc x i)"

text \<open>
  The test inside the callback of \<open>find\<close>:
  \<open>(bucket.size + file.size) <= 50 * 1024 * 1024 && bucket.files.length <= 5000\<close>.
\<close>

definition fits :: "bucket \<Rightarrow> UploadableFile \<Rightarrow> bool" where
  "fits b file \<longleftrightarrow>
     size_bucket b + size_file file \<le> 50 * 1024 * 1024 \<and> length (files b) \<le> 5000"

text \<open>
  \<open>Array(buckets.length).fill(0).map((_, j) => j).find((_, j) => ...)\<close>: the first offset
  \<open>j\<close> in \<open>0, ..., buckets.length - 1\<close> whose bucket \<open>buckets[(i + j) % buckets.length]\<close>
  passes the test, or \<open>undefined\<close> (here \<open>None\<close>).
\<close>

definition findOffset :: "bucket list \<Rightarrow> UploadableFile \<Rightarrow> nat \<Rightarrow> nat option" where
  "findOffset buckets file i =
     find (\<lambda>j. fits (buckets ! ((i + j) mod length buckets)) file) [0..<length buckets]"

text \<open>\<open>bucket.files.push(file); bucket.size += file.size\<close>.\<close>

definition addFile :: "bucket \<Rightarrow> UploadableFile \<Rightarrow> bucket" where
  "addFile b file = b\<lparr>files := files b @ [file], size_bucket := size_bucket b + size_file file\<rparr>"

text \<open>
  The callback of \<open>reduce\<close>. When \<open>find\<close> returns the offset \<open>j\<close>, the file goes to
  \<open>buckets[(j + i) % buckets.length]\<close>. When it returns \<open>undefined\<close>, the index is
  \<open>(undefined + i) % buckets.length\<close>, which is \<open>NaN\<close>, \<open>buckets[NaN]\<close> is \<open>undefined\<close>,
  and the branch \<open>if (!bucket)\<close> pushes a fresh bucket that receives the file.
\<close>

definition packFile :: "bucket list \<Rightarrow> UploadableFile \<Rightarrow> nat \<Rightarrow> bucket list" where
  "packFile buckets file i =
     (case findOffset buckets file i of
        Some j \<Rightarrow>
          (let k = (j + i) mod length buckets
           in buckets[k := addFile (buckets ! k) file])
      | None \<Rightarrow> buckets @ [addFile \<lparr>files = [], size_bucket = 0\<rparr> file])"

text \<open>
  The whole \<open>reduce\<close> call, started on
  \<open>Array(3).fill(null).map(() => ({ files: [], size: 0 }))\<close>: three separate empty buckets.
\<close>

definition uploadBuckets :: "UploadableFile list \<Rightarrow> bucket list" where
  "uploadBuckets filesToUpload =
     reduce packFile filesToUpload 0 (replicate 3 \<lparr>files = [], size_bucket = 0\<rparr>)"

section \<open>The upload\<close>

record gitData =
  branch :: string
  commit :: string
  commitMessage :: string

text \<open>
  \<open>files.filter(file => missingHashes.includes(file.hash)).sort((a, b) => b.size - a.size)\<close>:
  \<open>Array.prototype.sort\<close> is stable, so it is the stable sort on the negated size.
\<close>

definition filesToUpload :: "UploadableFile list \<Rightarrow> string list \<Rightarrow> UploadableFile list" where
  "filesToUpload scanned missingHashes =
     sort_key (\<lambda>file. - int (size_file file))
       (filter (\<lambda>file. hash file \<in> set missingHashes) scanned)"

text \<open>The payload entry of one file of a bucket; the file is read again.\<close>

definition payloadEntry :: "fs \<Rightarrow> UploadableFile \<Rightarrow> error + UploadFileGroupPayload" where
  "payloadEntry fs file =
     (case readFile fs (absolutePath file) of
        Inl e \<Rightarrow> Inl e
      | Inr contents \<Rightarrow>
          Inr \<lparr>key = hash file,
               value_payload = toString_base64 contents,
               metadata = \<lparr>contentType = mime file\<rparr>,
               base64 = True\<rparr>)"

text \<open>The async callback run for one non-empty bucket.\<close>

definition uploadBucket ::
  "env \<Rightarrow> fs \<Rightarrow> ('n, unit) fetch \<Rightarrow> string \<Rightarrow> bucket \<Rightarrow> 'n run \<Rightarrow> (error + unit) \<times> 'n run" where
  "uploadBucket env fs fetch uploadsJwt bucket s =
     (case promiseAll (map (payloadEntry fs) (files bucket)) of
        Inl e \<Rightarrow> (Inl e, s)
      | Inr payload \<Rightarrow>
          cfApiRequest env fetch ''POST'' ''/pages/assets/upload'' uploadsJwt (Payload payload) s)"

text \<open>
  \<open>Promise.all\<close> over the bucket callbacks. The callbacks run concurrently in the source;
  here they run one after the other in bucket order. A failed callback does not stop the
  others, and the whole fails when one of them failed.
\<close>

fun uploadAll ::
  "env \<Rightarrow> fs \<Rightarrow> ('n, unit) fetch \<Rightarrow> string \<Rightarrow> bucket list \<Rightarrow> 'n run \<Rightarrow> (error + unit) \<times> 'n run" where
  "uploadAll env fs fetch uploadsJwt [] s = (Inr (), s)"
| "uploadAll env fs fetch uploadsJwt (b # bs) s =
     (case uploadBucket env fs fetch uploadsJwt b s of
        (r, s1) \<Rightarrow>
          (case uploadAll env fs fetch uploadsJwt bs s1 of
             (rs, s2) \<Rightarrow> ((case r of Inl e \<Rightarrow> Inl e | Inr u \<Rightarrow> rs), s2)))"

text \<open>
  \<open>Object.fromEntries(files.map(file => [file.publicUrl, file.hash]))\<close>, the object whose
  JSON text is the \<open>manifest\<close> field.
\<close>

definition manifest :: "UploadableFile list \<Rightarrow> (string \<times> string) list" where
  "manifest scanned = fromEntries (map (\<lambda>file. (publicUrl file, hash file)) scanned)"

text \<open>
  One of the two blocks \<open>try { ... readFile(join(directory, name), "utf8") ... } catch { }\<close>:
  the entry appended to the form, none when the read is rejected.
\<close>

definition optionalFile :: "env \<Rightarrow> fs \<Rightarrow> string \<Rightarrow> string \<Rightarrow> (string \<times> formValue) list" where
  "optionalFile env fs directory fileName =
     (case readFile_utf8 fs (join env [directory, fileName]) of
        Inl e \<Rightarrow> []
      | Inr contents \<Rightarrow> [(fileName, File contents fileName)])"

definition formData ::
  "env \<Rightarrow> fs \<Rightarrow> string \<Rightarrow> gitData \<Rightarrow> UploadableFile list \<Rightarrow> (string \<times> formValue) list" where
  "formData env fs directory git scanned =
     [(''manifest'', JSON_stringify (manifest scanned)),
      (''branch'', StringValue (branch git)),
      (''commit_hash'', StringValue (commit git)),
      (''commit_message'', StringValue (commitMessage git)),
      (''commit_dirty'', StringValue ''false'')]
     @ optionalFile env fs directory ''_redirects''
     @ optionalFile env fs directory ''_headers''"

text \<open>The non-empty buckets, \<open>uploadBuckets.filter(el => el.files.length > 0)\<close>.\<close>

definition nonEmpty :: "bucket list \<Rightarrow> bucket list" where
  "nonEmpty buckets = filter (\<lambda>el. length (files el) > 0) buckets"

text \<open>
  The last stage of \<open>upload\<close>, from \<open>new FormData()\<close> to the end: the form is
  built and sent as the deployment request, whose result is the result of \<open>upload\<close>.
\<close>

definition createDeployment ::
  "env \<Rightarrow> fs \<Rightarrow> ('n, 'p, 'd) remote \<Rightarrow> string \<Rightarrow> string \<Rightarrow> string \<Rightarrow> string \<Rightarrow> gitData
     \<Rightarrow> UploadableFile list \<Rightarrow> 'n run \<Rightarrow> (error + 'd) \<times> 'n run" where
  "createDeployment env fs remote cfToken directory accountId projectName git scanned s =
     cfApiRequest env (fetch_Deployment remote) ''POST''
       (''/accounts/'' @ accountId @ ''/pages/projects/'' @ projectName @ ''/deployments'')
       cfToken (FormData (formData env fs directory git scanned)) s"

text \<open>
  \<open>upload\<close>, stage by stage; every \<open>await\<close> of a rejected promise ends the run with that
  error. The local \<open>files\<close> of the source is \<open>scanned\<close> here (\<open>files\<close> is the field of a
  bucket).
\<close>

definition upload ::
  "env \<Rightarrow> fs \<Rightarrow> ('n, 'p, 'd) remote \<Rightarrow> string \<Rightarrow> string \<Rightarrow> string \<Rightarrow> string \<Rightarrow> gitData
     \<Rightarrow> 'n run \<Rightarrow> (error + 'd) \<times> 'n run" where
  "upload env fs remote cfToken directory accountId projectName git s0 =
     (case findUploadableFiles env fs directory of
        Inl e \<Rightarrow> (Inl e, s0)
      | Inr scanned \<Rightarrow>
     (case cfApiRequest env (fetch_DirectUploadsJWT remote) ''GET''
             (''/accounts/'' @ accountId @ ''/pages/projects/'' @ projectName @ ''/upload-token'')
             cfToken Undefined s0 of
        (Inl e, s1) \<Rightarrow> (Inl e, s1)
      | (Inr token, s1) \<Rightarrow>
     (case cfApiRequest env (fetch_strings remote) ''POST'' ''/pages/assets/check-missing''
             (jwt token) (Hashes (map hash scanned)) s1 of
        (Inl e, s2) \<Rightarrow> (Inl e, s2)
      | (Inr missingHashes, s2) \<Rightarrow>
     (case uploadAll env fs (fetch_unknown remote) (jwt token)
             (nonEmpty (uploadBuckets (filesToUpload scanned missingHashes))) s2 of
        (Inl e, s3) \<Rightarrow> (Inl e, s3)
      | (Inr u, s3) \<Rightarrow>
     (case cfApiRequest env (fetch_unknown remote) ''POST'' ''/pages/assets/upsert-hashes''
             (jwt token) (Hashes (map hash scanned)) s3 of
        (Inl e, s4) \<Rightarrow> (Inl e, s4)
      | (Inr u', s4) \<Rightarrow>
          createDeployment env fs remote cfToken directory accountId projectName git scanned
            s4)))))"

section \<open>An example platform, directory and remote store\<close>

text \<open>
  A POSIX-like platform on which the theorems below are instantiated. The digest is a
  stand-in for BLAKE3 with the same output length: the last bytes of its input, padded
  with zeros.
\<close>

definition exampleResolve :: "string list \<Rightarrow> string" where
  "exampleResolve parts =
     fold (\<lambda>p acc. if take 1 p = ''/'' then p else acc @ ''/'' @ p) parts ''/home/runner''"

definition exampleRelative :: "string \<Rightarrow> string \<Rightarrow> string" where
  "exampleRelative base target = drop (length base + 1) target"

definition exampleExtname :: "string \<Rightarrow> string" where
  "exampleExtname p =
     (let base = last (split_string (CHR ''/'') p);
          ext = rev (takeWhile (\<lambda>c. c \<noteq> CHR ''.'') (rev base))
      in if CHR ''.'' \<notin> set base \<or> length ext + 1 = length base \<or> base = ''..'' then []
         else CHR ''.'' # ext)"

definition exampleDigest :: "string \<Rightarrow> nat \<Rightarrow> byte list" where
  "exampleDigest s n = take n (map (\<lambda>c. of_nat (of_char c)) (rev s) @ replicate n 0)"

definition exampleMime :: "string \<Rightarrow> string option" where
  "exampleMime p =
     (if exampleExtname p = ''.html'' then Some ''text/html''
      else if exampleExtname p = ''.txt'' then Some ''text/plain''
      else None)"

definition exampleEnv :: env where
  "exampleEnv =
     \<lparr>FCFP_VERSION = ''1.0.0'', sep = CHR ''/'', resolve = exampleResolve,
      relative = exampleRelative, join = join_array ''/'', extname = exampleExtname,
      blake3 = exampleDigest, mimeLookup = exampleMime\<rparr>"

text \<open>
  The directory \<open>/site\<close>: a page, a text file, a subdirectory \<open>docs\<close> with a copy of the
  text file and the same bytes under another extension, and two reserved files, one of
  them in the subdirectory. Reading \<open>_redirects\<close> at the root fails with \<open>EACCES\<close>.
\<close>

definition exampleEntries :: "Dirent list" where
  "exampleEntries =
     [\<lparr>name = ''index.html'', path = ''/site'', isFile = True\<rparr>,
      \<lparr>name = ''docs'', path = ''/site'', isFile = False\<rparr>,
      \<lparr>name = ''a.txt'', path = ''/site'', isFile = True\<rparr>,
      \<lparr>name = ''_headers'', path = ''/site'', isFile = True\<rparr>,
      \<lparr>name = ''a.txt'', path = ''/site/docs'', isFile = True\<rparr>,
      \<lparr>name = ''a.md'', path = ''/site/docs'', isFile = True\<rparr>,
      \<lparr>name = ''_routes.json'', path = ''/site/docs'', isFile = True\<rparr>]"

definition exampleContents :: "string \<Rightarrow> error + byte list" where
  "exampleContents p =
     (if p = ''/site/index.html'' then Inr [60, 112, 62, 60, 47, 112, 62]
      else if p \<in> {''/site/a.txt'', ''/site/docs/a.txt'', ''/site/docs/a.md''} then Inr [104, 105]
      else if p = ''/site/_headers'' then Inr [47, 42]
      else if p = ''/site/docs/_routes.json'' then Inr [123, 125]
      else if p = ''/site/_redirects'' then Inl (SystemError ''EACCES'')
      else Inl (SystemError ''ENOENT''))"

definition exampleFs :: fs where
  "exampleFs =
     \<lparr>readdir = (\<lambda>d. if d = ''/site'' then Inr exampleEntries else Inl (SystemError ''ENOENT'')),
      stat = (\<lambda>p. case exampleContents p of Inl e \<Rightarrow> Inl e | Inr bs \<Rightarrow> Inr (length bs)),
      readFile = exampleContents,
      readFile_utf8 = (\<lambda>p. case exampleContents p of
                               Inl e \<Rightarrow> Inl e
                             | Inr bs \<Rightarrow> Inr (map (\<lambda>b. char_of (unat b)) bs))\<rparr>"

text \<open>
  A remote store whose state is the list of keys it holds. It answers the project request
  with status 404, reports the hashes it does not hold, stores the keys of every payload,
  and names the deployment after the number of keys.
\<close>

definition exampleRemote :: "(string list, string, string) remote" where
  "exampleRemote =
     \<lparr>fetch_Project = (\<lambda>req n.
        (Inr \<lparr>status = 404, text_response = ''project not found'',
              json_result = Inl (SyntaxError ''Unexpected token'')\<rparr>, n)),
      fetch_DirectUploadsJWT = (\<lambda>req n.
        (Inr \<lparr>status = 200, text_response = [], json_result = Inr \<lparr>jwt = ''uploads-jwt''\<rparr>\<rparr>, n)),
      fetch_strings = (\<lambda>req n.
        (case body_request req of
           Hashes hs \<Rightarrow>
             Inr \<lparr>status = 200, text_response = [],
                  json_result = Inr (filter (\<lambda>h. h \<notin> set n) hs)\<rparr>
         | _ \<Rightarrow> Inr \<lparr>status = 400, text_response = ''hashes expected'',
                     json_result = Inl (SyntaxError ''Unexpected token'')\<rparr>, n)),
      fetch_unknown = (\<lambda>req n.
        (Inr \<lparr>status = 200, text_response = [], json_result = Inr ()\<rparr>,
         (case body_request req of Payload p \<Rightarrow> n @ map key p | _ \<Rightarrow> n))),
      fetch_Deployment = (\<lambda>req n.
        (Inr \<lparr>status = 200, text_response = [],
              json_result = Inr (''deployment-'' @ toString_number (length n))\<rparr>, n))\<rparr>"

definition exampleGit :: gitData where
  "exampleGit = \<lparr>branch = ''main'', commit = ''0a1b2c'', commitMessage = ''Update site''\<rparr>"

section \<open>Notions used in the statements\<close>

text \<open>
  What a sequence of requests transmitted: the payload entries of its upload requests,
  and the forms of its form requests, both in order.
\<close>

definition payloadOf :: "request \<Rightarrow> UploadFileGroupPayload list" where
  "payloadOf r = (case body_request r of Payload p \<Rightarrow> p | _ \<Rightarrow> [])"

definition uploadedPayload :: "request list \<Rightarrow> UploadFileGroupPayload list" where
  "uploadedPayload sent = concat (map payloadOf sent)"

definition formsOf :: "request \<Rightarrow> (string \<times> formValue) list list" where
  "formsOf r = (case body_request r of FormData form \<Rightarrow> [form] | _ \<Rightarrow> [])"

definition submittedForms :: "request list \<Rightarrow> (string \<times> formValue) list list" where
  "submittedForms sent = concat (map formsOf sent)"

text \<open>The request that \<open>cfApiRequest\<close> sends for given arguments.\<close>

definition requestOf :: "env \<Rightarrow> string \<Rightarrow> string \<Rightarrow> string \<Rightarrow> body \<Rightarrow> request" where
  "requestOf env method url token body =
     \<lparr>method_request = method, url_request = cfBaseUrl @ url, userAgent = userAgent_of env,
      authorization = ''Bearer '' @ token, body_request = body\<rparr>"

text \<open>
  A bucket is consistent when its running total is the sum of the sizes of its files,
  and within the byte cap when that total is at most 50 MiB.
\<close>

definition bucketOk :: "bucket \<Rightarrow> bool" where
  "bucketOk b \<longleftrightarrow>
     size_bucket b = sum_list (map size_file (files b)) \<and> size_bucket b \<le> 50 * 1024 * 1024"

text \<open>A file record of a given path and size, for the examples of packing.\<close>

definition fileOfSize :: "string \<Rightarrow> nat \<Rightarrow> UploadableFile" where
  "fileOfSize p n =
     \<lparr>absolutePath = ''/site'' @ p, size_file = n, mime = ''application/octet-stream'',
      hash = toString_hex (exampleDigest p 16), publicUrl = p\<rparr>"

text \<open>Five files that fit under the cap, already in descending order of size.\<close>

definition fittingFiles :: "UploadableFile list" where
  "fittingFiles =
     [fileOfSize ''/a.bin'' 52428800, fileOfSize ''/b.bin'' 30000000,
      fileOfSize ''/c.bin'' 30000000, fileOfSize ''/d.bin'' 20000000,
      fileOfSize ''/e.bin'' 1]"

text \<open>
  Two files of exactly 50 MiB followed by 5001 files of one byte, in descending order
  of size.
\<close>

definition crowdedFiles :: "UploadableFile list" where
  "crowdedFiles =
     [fileOfSize ''/a.bin'' 52428800, fileOfSize ''/b.bin'' 52428800]
     @ map (\<lambda>n. fileOfSize (''/'' @ toString_number n @ ''.txt'') 1) [0..<5001]"

text \<open>A file one byte above the cap.\<close>

definition oversizeFile :: UploadableFile where
  "oversizeFile = fileOfSize ''/video.mp4'' 52428801"

text \<open>
  A file sits alone in an appended bucket when some bucket after the first three holds
  that file and nothing else.
\<close>

definition aloneIn :: "UploadableFile \<Rightarrow> bucket list \<Rightarrow> bool" where
  "aloneIn f buckets \<longleftrightarrow>
     (\<exists>k. 3 \<le> k \<and> k < length buckets \<and> files (buckets ! k) = [f]
          \<and> size_bucket (buckets ! k) = size_file f)"

text \<open>What the scanner returns on the example directory.\<close>

definition exampleScan :: "UploadableFile list" where
  "exampleScan =
     [\<lparr>absolutePath = ''/site/index.html'', size_file = 7, mime = ''text/html'',
       hash = ''6c6d74683d3d6750773943502b414850'', publicUrl = ''/index.html''\<rparr>,
      \<lparr>absolutePath = ''/site/a.txt'', size_file = 2, mime = ''text/plain'',
       hash = ''7478743d6b4761000000000000000000'', publicUrl = ''/a.txt''\<rparr>,
      \<lparr>absolutePath = ''/site/docs/a.txt'', size_file = 2, mime = ''text/plain'',
       hash = ''7478743d6b4761000000000000000000'', publicUrl = ''/docs/a.txt''\<rparr>,
      \<lparr>absolutePath = ''/site/docs/a.md'', size_file = 2, mime = ''application/octet-stream'',
       hash = ''646d3d6b476100000000000000000000'', publicUrl = ''/docs/a.md''\<rparr>]"

text \<open>
  The example run: the store already holds the page, so the three other files are
  reported missing and uploaded, two of them under the same key.
\<close>

definition exampleStore :: "string list" where
  "exampleStore = [''6c6d74683d3d6750773943502b414850'']"

definition exampleMissing :: "string list" where
  "exampleMissing =
     [''7478743d6b4761000000000000000000'', ''7478743d6b4761000000000000000000'',
      ''646d3d6b476100000000000000000000'']"

definition exampleBuckets :: "bucket list" where
  "exampleBuckets =
     [\<lparr>files = [exampleScan ! 1], size_bucket = 2\<rparr>,
      \<lparr>files = [exampleScan ! 2], size_bucket = 2\<rparr>,
      \<lparr>files = [exampleScan ! 3], size_bucket = 2\<rparr>]"

definition examplePayloads :: "UploadFileGroupPayload list list" where
  "examplePayloads =
     [[\<lparr>key = ''7478743d6b4761000000000000000000'', value_payload = ''aGk='',
        metadata = \<lparr>contentType = ''text/plain''\<rparr>, base64 = True\<rparr>],
      [\<lparr>key = ''7478743d6b4761000000000000000000'', value_payload = ''aGk='',
        metadata = \<lparr>contentType = ''text/plain''\<rparr>, base64 = True\<rparr>],
      [\<lparr>key = ''646d3d6b476100000000000000000000'', value_payload = ''aGk='',
        metadata = \<lparr>contentType = ''application/octet-stream''\<rparr>, base64 = True\<rparr>]]"

definition exampleForm :: "(string \<times> formValue) list" where
  "exampleForm =
     [(''manifest'', JSON_stringify
         [(''/index.html'', ''6c6d74683d3d6750773943502b414850''),
          (''/a.txt'', ''7478743d6b4761000000000000000000''),
          (''/docs/a.txt'', ''7478743d6b4761000000000000000000''),
          (''/docs/a.md'', ''646d3d6b476100000000000000000000'')]),
      (''branch'', StringValue ''main''),
      (''commit_hash'', StringValue ''0a1b2c''),
      (''commit_message'', StringValue ''Update site''),
      (''commit_dirty'', StringValue ''false''),
      (''_headers'', File ''/*'' ''_headers'')]"

definition exampleSent :: "request list" where
  "exampleSent =
     [requestOf exampleEnv ''GET'' ''/accounts/acc/pages/projects/proj/upload-token'' ''tok''
        Undefined,
      requestOf exampleEnv ''POST'' ''/pages/assets/check-missing'' ''uploads-jwt''
        (Hashes (map hash exampleScan))]
     @ map (\<lambda>p. requestOf exampleEnv ''POST'' ''/pages/assets/upload'' ''uploads-jwt'' (Payload p))
         examplePayloads
     @ [requestOf exampleEnv ''POST'' ''/pages/assets/upsert-hashes'' ''uploads-jwt''
          (Hashes (map hash exampleScan)),
        requestOf exampleEnv ''POST'' ''/accounts/acc/pages/projects/proj/deployments'' ''tok''
          (FormData exampleForm)]"

section \<open>The packer keeps the byte cap\<close>

lemma findOffset_Some:
  assumes "findOffset buckets file i = Some j"
  shows "j < length buckets" and "fits (buckets ! ((j + i) mod length buckets)) file"
  using assms by (auto simp: findOffset_def find_Some_iff add.commute)

lemma findOffset_None:
  assumes "findOffset buckets file i = None"
  shows "\<forall>b \<in> set buckets. \<not> fits b file"
proof
  fix b assume "b \<in> set buckets"
  then obtain k where k: "k < length buckets" "buckets ! k = b"
    by (auto simp: in_set_conv_nth)
  define n where "n = length buckets"
  define j where "j = (k + n - i mod n) mod n"
  have n: "0 < n" using k by (cases buckets) (simp_all add: n_def)
  have "j < n" using n by (simp add: j_def)
  have "(i + j) mod n = (i mod n + (k + n - i mod n)) mod n"
    unfolding j_def by (metis mod_add_eq mod_mod_trivial)
  also have "i mod n + (k + n - i mod n) = k + n"
    using n by (simp add: less_imp_le_nat mod_less_divisor trans_le_add2)
  also have "(k + n) mod n = k" using k by (simp add: n_def)
  finally have "(i + j) mod n = k" .
  moreover from assms have "\<not> fits (buckets ! ((i + j) mod n)) file"
    using \<open>j < n\<close> by (auto simp: findOffset_def find_None_iff n_def)
  ultimately show "\<not> fits b file" using k by simp
qed

lemma bucketOk_addFile:
  "bucketOk b \<Longrightarrow> size_bucket b + size_file file \<le> 50 * 1024 * 1024 \<Longrightarrow> bucketOk (addFile b file)"
  by (simp add: bucketOk_def addFile_def)

lemma packFile_bucketOk:
  assumes "\<forall>b \<in> set buckets. bucketOk b" and "size_file file \<le> 50 * 1024 * 1024"
  shows "\<forall>b \<in> set (packFile buckets file i). bucketOk b"
proof (cases "findOffset buckets file i")
  case None
  have "bucketOk (addFile \<lparr>files = [], size_bucket = 0\<rparr> file)"
    using assms(2) by (simp add: bucketOk_def addFile_def)
  with None assms(1) show ?thesis by (simp add: packFile_def)
next
  case (Some j)
  let ?k = "(j + i) mod length buckets"
  from findOffset_Some[OF Some] have j: "j < length buckets" and f: "fits (buckets ! ?k) file"
    by simp_all
  have k: "?k < length buckets" using j by (cases "length buckets = 0") simp_all
  then have "bucketOk (buckets ! ?k)" using assms(1) by simp
  with f have new: "bucketOk (addFile (buckets ! ?k) file)"
    by (simp add: bucketOk_addFile fits_def)
  have "set (buckets[?k := addFile (buckets ! ?k) file])
          \<subseteq> insert (addFile (buckets ! ?k) file) (set buckets)"
    by (rule set_update_subset_insert)
  with new assms(1) Some show ?thesis
    by (auto simp: packFile_def Let_def)
qed

lemma reduce_packFile_bucketOk:
  assumes "\<forall>b \<in> set buckets. bucketOk b" and "\<forall>f \<in> set fs. size_file f \<le> 50 * 1024 * 1024"
  shows "\<forall>b \<in> set (reduce packFile fs i buckets). bucketOk b"
  using assms
proof (induction fs arbitrary: i buckets)
  case Nil
  then show ?case by simp
next
  case (Cons f fs)
  have "\<forall>b \<in> set (packFile buckets f i). bucketOk b"
    using Cons.prems by (intro packFile_bucketOk) simp_all
  then show ?case using Cons.prems by (simp add: Cons.IH)
qed

lemma reduce_append:
  "reduce f (xs @ ys) i acc = reduce f ys (i + length xs) (reduce f xs i acc)"
  by (induction xs arbitrary: i acc) simp_all

text \<open>
  Claim C1. When every file to upload has at most 50 MiB (52428800 bytes), then after
  any number \<open>k\<close> of files has been packed, and so in the final output too, the sizes
  of the files of every bucket add up to at most 50 MiB; the running total of the bucket
  is that sum.
\<close>

theorem packer_bytes_within_cap:
  assumes "\<forall>f \<in> set fs. size_file f \<le> 52428800"
  shows "\<forall>k \<le> length fs. \<forall>b \<in> set (uploadBuckets (take k fs)).
           sum_list (map size_file (files b)) \<le> 52428800 \<and>
           size_bucket b = sum_list (map size_file (files b))"
proof (intro allI impI)
  fix k assume "k \<le> length fs"
  have small: "\<forall>f \<in> set (take k fs). size_file f \<le> 50 * 1024 * 1024"
    using assms by (auto dest: in_set_takeD)
  have init: "\<forall>b \<in> set (replicate 3 \<lparr>files = [], size_bucket = 0\<rparr>). bucketOk b"
    by (simp add: bucketOk_def)
  have "\<forall>b \<in> set (uploadBuckets (take k fs)). bucketOk b"
    unfolding uploadBuckets_def by (rule reduce_packFile_bucketOk[OF init small])
  then show "\<forall>b \<in> set (uploadBuckets (take k fs)).
           sum_list (map size_file (files b)) \<le> 52428800 \<and>
           size_bucket b = sum_list (map size_file (files b))"
    by (auto simp: bucketOk_def)
qed

theorem packer_bytes_within_cap_witness:
  "list_all (\<lambda>f. size_file f \<le> 52428800) fittingFiles \<and>
   list_all (\<lambda>b. sum_list (map size_file (files b)) \<le> 52428800 \<and>
                  size_bucket b = sum_list (map size_file (files b)))
     (uploadBuckets (take 4 fittingFiles)) \<and>
   list_all (\<lambda>b. sum_list (map size_file (files b)) \<le> 52428800 \<and>
                  size_bucket b = sum_list (map size_file (files b)))
     (uploadBuckets (take 5 fittingFiles))"
proof -
  have h: "\<forall>f \<in> set fittingFiles. size_file f \<le> 52428800"
    by (simp add: fittingFiles_def fileOfSize_def)
  have n: "4 \<le> length fittingFiles" "5 \<le> length fittingFiles"
    by (simp_all add: fittingFiles_def)
  from packer_bytes_within_cap[OF h] n h show ?thesis
    unfolding list_all_iff by blast
qed

section \<open>The item limit of the packer\<close>

text \<open>Small facts for evaluating the packer on its three initial buckets.\<close>

lemma upt_0_3: "[0..<3] = [0, Suc 0, 2]"
  by (simp add: numeral_3_eq_3 numeral_2_eq_2)

lemma replicate_3: "replicate 3 x = [x, x, x]"
  by (simp add: numeral_3_eq_3)

text \<open>
  When only the third of three buckets accepts a file, the file goes there whatever the
  rotation offset is; so a run of one-byte files fills the third bucket while the other
  two are full of bytes.
\<close>

lemma packFile_only_last:
  assumes "\<not> fits b0 f" "\<not> fits b1 f" "fits b2 f"
  shows "packFile [b0, b1, b2] f i = [b0, b1, addFile b2 f]"
proof -
  have "findOffset [b0, b1, b2] f i \<noteq> None"
    using findOffset_None[of "[b0, b1, b2]" f i] assms(3) by auto
  then obtain j where j: "findOffset [b0, b1, b2] f i = Some j" by auto
  define k where "k = (j + i) mod 3"
  from findOffset_Some(2)[OF j] have fit: "fits ([b0, b1, b2] ! k) f" by (simp add: k_def)
  have "k < 3" by (simp add: k_def)
  then have "k = 0 \<or> k = 1 \<or> k = 2" by arith
  with fit assms(1,2) have "k = 2" by auto
  with j show ?thesis by (simp add: packFile_def k_def)
qed

lemma reduce_fill_last:
  assumes "\<forall>f \<in> set fs. size_file f = 1"
    and "size_bucket b0 = 52428800" and "size_bucket b1 = 52428800"
    and "length (files b2) + length fs \<le> 5001"
    and "size_bucket b2 + length fs \<le> 52428800"
  shows "reduce packFile fs i [b0, b1, b2] =
           [b0, b1, b2\<lparr>files := files b2 @ fs, size_bucket := size_bucket b2 + length fs\<rparr>]"
  using assms
proof (induction fs arbitrary: i b2)
  case Nil
  then show ?case by simp
next
  case (Cons f fs)
  have one: "size_file f = 1" using Cons.prems(1) by simp
  have step: "packFile [b0, b1, b2] f i = [b0, b1, addFile b2 f]"
    using Cons.prems one by (intro packFile_only_last) (simp_all add: fits_def)
  have "reduce packFile fs (Suc i) [b0, b1, addFile b2 f] =
          [b0, b1, (addFile b2 f)\<lparr>files := files (addFile b2 f) @ fs,
                     size_bucket := size_bucket (addFile b2 f) + length fs\<rparr>]"
    using Cons.prems one by (intro Cons.IH) (simp_all add: addFile_def)
  with step one show ?case by (simp add: addFile_def)
qed

lemma crowded_first_two:
  "reduce packFile [fileOfSize p 52428800, fileOfSize q 52428800] 0
     (replicate 3 \<lparr>files = [], size_bucket = 0\<rparr>) =
   [\<lparr>files = [fileOfSize p 52428800], size_bucket = 52428800\<rparr>,
    \<lparr>files = [fileOfSize q 52428800], size_bucket = 52428800\<rparr>,
    \<lparr>files = [], size_bucket = 0\<rparr>]"
  by (simp add: replicate_3 packFile_def findOffset_def fits_def addFile_def upt_0_3
      fileOfSize_def)

text \<open>
  Claim C2 says that a bucket never holds more than 5000 files. The test
  \<open>bucket.files.length <= 5000\<close> is made before the file is pushed, so a bucket that
  already holds 5000 files accepts one more: on two files of 50 MiB followed by 5001
  files of one byte, the third bucket ends with 5001 files.
\<close>

theorem crowded_bucket_holds_5001_files:
  "map (\<lambda>b. length (files b)) (uploadBuckets crowdedFiles) = [1, 1, 5001]"
proof -
  define small where
    "small = map (\<lambda>n. fileOfSize (''/'' @ toString_number n @ ''.txt'') 1) [0..<5001]"
  define a where "a = fileOfSize ''/a.bin'' 52428800"
  define b where "b = fileOfSize ''/b.bin'' 52428800"
  define empty where "empty = \<lparr>files = [], size_bucket = 0\<rparr>"
  have len: "length small = 5001" by (simp add: small_def)
  have ones: "\<forall>f \<in> set small. size_file f = 1"
    unfolding small_def set_map by (rule ballI) (auto simp: fileOfSize_def)
  have "uploadBuckets crowdedFiles = reduce packFile ([a, b] @ small) 0 (replicate 3 empty)"
    by (simp only: uploadBuckets_def crowdedFiles_def small_def a_def b_def empty_def)
  also have "\<dots> = reduce packFile small (0 + length [a, b])
                    (reduce packFile [a, b] 0 (replicate 3 empty))"
    by (rule reduce_append)
  also have "0 + length [a, b] = 2" by simp
  also have "reduce packFile [a, b] 0 (replicate 3 empty) =
      [\<lparr>files = [a], size_bucket = 52428800\<rparr>, \<lparr>files = [b], size_bucket = 52428800\<rparr>, empty]"
    unfolding a_def b_def empty_def by (rule crowded_first_two)
  also have "reduce packFile small 2
      [\<lparr>files = [a], size_bucket = 52428800\<rparr>, \<lparr>files = [b], size_bucket = 52428800\<rparr>, empty] =
      [\<lparr>files = [a], size_bucket = 52428800\<rparr>, \<lparr>files = [b], size_bucket = 52428800\<rparr>,
       empty\<lparr>files := files empty @ small, size_bucket := size_bucket empty + length small\<rparr>]"
    using ones by (intro reduce_fill_last) (simp_all add: len empty_def)
  finally show ?thesis by (simp add: len empty_def)
qed

section \<open>A file above the byte cap\<close>

lemma length_packFile: "length buckets \<le> length (packFile buckets g i)"
  by (simp add: packFile_def Let_def split: option.splits)

lemma aloneIn_packFile:
  assumes "aloneIn f buckets" and "52428800 < size_file f"
  shows "aloneIn f (packFile buckets g i)"
proof -
  from assms(1) obtain k where k: "3 \<le> k" "k < length buckets" "files (buckets ! k) = [f]"
    "size_bucket (buckets ! k) = size_file f"
    by (auto simp: aloneIn_def)
  show ?thesis
  proof (cases "findOffset buckets g i")
    case None
    then have "packFile buckets g i = buckets @ [addFile \<lparr>files = [], size_bucket = 0\<rparr> g]"
      by (simp add: packFile_def)
    with k show ?thesis by (auto simp: aloneIn_def nth_append intro!: exI[of _ k])
  next
    case (Some j)
    let ?m = "(j + i) mod length buckets"
    from findOffset_Some(2)[OF Some] have "fits (buckets ! ?m) g" .
    then have "size_bucket (buckets ! ?m) \<le> 52428800" by (simp add: fits_def)
    with k(4) assms(2) have "?m \<noteq> k" by auto
    with Some k show ?thesis
      by (auto simp: aloneIn_def packFile_def Let_def intro!: exI[of _ k])
  qed
qed

lemma aloneIn_reduce:
  assumes "aloneIn f buckets" and "52428800 < size_file f"
  shows "aloneIn f (reduce packFile fs i buckets)"
  using assms by (induction fs arbitrary: i buckets) (simp_all add: aloneIn_packFile)

lemma oversize_packFile:
  assumes "52428800 < size_file f" and "3 \<le> length buckets"
  shows "aloneIn f (packFile buckets f i)"
proof -
  have "findOffset buckets f i = None"
    using assms(1) by (simp add: findOffset_def find_None_iff fits_def)
  then have "packFile buckets f i = buckets @ [addFile \<lparr>files = [], size_bucket = 0\<rparr> f]"
    by (simp add: packFile_def)
  with assms(2) show ?thesis
    by (auto simp: aloneIn_def addFile_def intro!: exI[of _ "length buckets"])
qed

lemma oversize_reduce:
  assumes "f \<in> set fs" and "52428800 < size_file f" and "3 \<le> length buckets"
  shows "aloneIn f (reduce packFile fs i buckets)"
  using assms
proof (induction fs arbitrary: i buckets)
  case Nil
  then show ?case by simp
next
  case (Cons g fs)
  show ?case
  proof (cases "g = f")
    case True
    with Cons.prems show ?thesis
      by (simp add: aloneIn_reduce oversize_packFile)
  next
    case False
    have "3 \<le> length (packFile buckets g i)"
      using Cons.prems(3) length_packFile[of buckets g i] by simp
    with False Cons.prems show ?thesis by (simp add: Cons.IH)
  qed
qed

text \<open>
  What the packer does with a file above the cap: the file fits no existing bucket, so a
  new bucket is appended for it, after the three initial ones; no later file joins it,
  and in the output that bucket holds this file alone, with a running total equal to the
  size of the file, which is above the cap.
\<close>

lemma oversize_file_packed_alone:
  assumes "f \<in> set fs" and "52428800 < size_file f"
  shows "\<exists>k. 3 \<le> k \<and> k < length (uploadBuckets fs) \<and> files (uploadBuckets fs ! k) = [f]
           \<and> size_bucket (uploadBuckets fs ! k) = size_file f"
  using oversize_reduce[OF assms, of "replicate 3 \<lparr>files = [], size_bucket = 0\<rparr>" 0]
  by (simp add: uploadBuckets_def aloneIn_def)

text \<open>
  Claim C3 says that a file above the cap makes the packer stop with a size-limit error
  and produce no bucket. The source has no such check: for a single file of 52428801
  bytes the packer returns four buckets, and the last one holds the file with a running
  total of 52428801 bytes, above the 50 MiB (52428800 bytes) that the comment in the
  source gives as the maximum of every bucket.
\<close>

theorem oversize_file_breaks_byte_cap:
  "uploadBuckets [oversizeFile] =
     [\<lparr>files = [], size_bucket = 0\<rparr>, \<lparr>files = [], size_bucket = 0\<rparr>,
      \<lparr>files = [], size_bucket = 0\<rparr>, \<lparr>files = [oversizeFile], size_bucket = 52428801\<rparr>] \<and>
   50 * 1024 * 1024 < size_bucket (uploadBuckets [oversizeFile] ! 3) \<and>
   50 * 1024 * 1024 < sum_list (map size_file (files (uploadBuckets [oversizeFile] ! 3)))"
proof -
  have packed: "uploadBuckets [oversizeFile] =
     [\<lparr>files = [], size_bucket = 0\<rparr>, \<lparr>files = [], size_bucket = 0\<rparr>,
      \<lparr>files = [], size_bucket = 0\<rparr>, \<lparr>files = [oversizeFile], size_bucket = 52428801\<rparr>]"
    by (simp add: uploadBuckets_def replicate_3 packFile_def findOffset_def fits_def addFile_def
        upt_0_3 oversizeFile_def fileOfSize_def)
  have "size_file oversizeFile = 52428801"
    by (simp add: oversizeFile_def fileOfSize_def)
  then show ?thesis unfolding packed by simp
qed

text \<open>The bound on the number of files that the packer does keep is 5001.\<close>

lemma packFile_count:
  assumes "\<forall>b \<in> set buckets. length (files b) \<le> 5001"
  shows "\<forall>b \<in> set (packFile buckets file i). length (files b) \<le> 5001"
proof (cases "findOffset buckets file i")
  case None
  with assms show ?thesis by (simp add: packFile_def addFile_def)
next
  case (Some j)
  let ?k = "(j + i) mod length buckets"
  from findOffset_Some[OF Some] have "fits (buckets ! ?k) file" by simp
  then have new: "length (files (addFile (buckets ! ?k) file)) \<le> 5001"
    by (simp add: fits_def addFile_def)
  have "set (buckets[?k := addFile (buckets ! ?k) file])
          \<subseteq> insert (addFile (buckets ! ?k) file) (set buckets)"
    by (rule set_update_subset_insert)
  with new assms Some show ?thesis by (auto simp: packFile_def Let_def)
qed

lemma reduce_count:
  assumes "\<forall>b \<in> set buckets. length (files b) \<le> 5001"
  shows "\<forall>b \<in> set (reduce packFile fs i buckets). length (files b) \<le> 5001"
  using assms
proof (induction fs arbitrary: i buckets)
  case Nil
  then show ?case by simp
next
  case (Cons f fs)
  have "\<forall>b \<in> set (packFile buckets f i). length (files b) \<le> 5001"
    by (rule packFile_count[OF Cons.prems])
  then show ?case by (simp add: Cons.IH)
qed

lemma packer_count_at_most_5001:
  "\<forall>b \<in> set (uploadBuckets fs). length (files b) \<le> 5001"
  unfolding uploadBuckets_def by (rule reduce_count) simp

section \<open>The scanner and its fingerprints\<close>

text \<open>Facts for evaluating the example platform and directory with the simplifier.\<close>

lemma replicate_numeral: "replicate (numeral k) x = x # replicate (pred_numeral k) x"
  by (simp add: numeral_eq_Suc)

lemmas example_simps =
  exampleEnv_def exampleFs_def exampleEntries_def exampleResolve_def exampleRelative_def
  exampleContents_def exampleMime_def exampleExtname_def exampleDigest_def split_string_def
  toString_hex_def hexDigit_def base64Digit_def replicate_numeral

lemma example_scan: "findUploadableFiles exampleEnv exampleFs ''/site'' = Inr exampleScan"
  by (simp add: findUploadableFiles_def uploadableEntries_def ignoredFiles_def
      uploadableFile_def hashData_def exampleScan_def example_simps)

text \<open>
  A successful \<open>Promise.all\<close> over a mapped list pairs every input with its result.
\<close>

lemma promiseAll_map:
  "promiseAll (map f xs) = Inr ys \<Longrightarrow> list_all2 (\<lambda>x y. f x = Inr y) xs ys"
proof (induction xs arbitrary: ys)
  case Nil
  then show ?case by simp
next
  case (Cons x xs)
  then show ?case by (auto split: sum.splits)
qed

lemma list_all2_right:
  "list_all2 P xs ys \<Longrightarrow> y \<in> set ys \<Longrightarrow> \<exists>x \<in> set xs. P x y"
  by (induction rule: list_all2_induct) auto

text \<open>
  What a successful scan says about each record: it comes from one surviving directory
  entry, and its fields are computed from that entry as in the source.
\<close>

lemma scanned_entries:
  assumes "findUploadableFiles env fs dir = Inr scanned"
  obtains dirEntries where "readdir fs (resolve env [dir]) = Inr dirEntries"
    and "list_all2 (\<lambda>entry f. uploadableFile env fs (resolve env [dir]) entry = Inr f)
           (uploadableEntries dirEntries) scanned"
  using assms
  by (auto simp: findUploadableFiles_def Let_def split: sum.splits dest: promiseAll_map)

lemma uploadableFile_Inr:
  assumes "uploadableFile env fs resolvedDir entry = Inr f"
  shows "absolutePath f = resolve env [resolvedDir, path entry, name entry]"
    and "publicUrl f = ''/'' @ join_array ''/''
           (split_string (sep env) (relative env resolvedDir (absolutePath f)))"
    and "stat fs (absolutePath f) = Inr (size_file f)"
    and "\<exists>contents. readFile fs (absolutePath f) = Inr contents \<and>
           hash f = toString_hex (blake3 env (hashData env (absolutePath f) contents) 16)"
  using assms by (auto simp: uploadableFile_def Let_def split: sum.splits)

lemma scanned_hash:
  assumes "findUploadableFiles env fs dir = Inr scanned" and "f \<in> set scanned"
    and "readFile fs (absolutePath f) = Inr contents"
  shows "hash f = toString_hex (blake3 env (hashData env (absolutePath f) contents) 16)"
proof -
  from assms(1) obtain dirEntries where
    "list_all2 (\<lambda>entry f. uploadableFile env fs (resolve env [dir]) entry = Inr f)
       (uploadableEntries dirEntries) scanned"
    by (rule scanned_entries)
  with assms(2) obtain entry where "uploadableFile env fs (resolve env [dir]) entry = Inr f"
    by (blast dest: list_all2_right)
  from uploadableFile_Inr(4)[OF this] assms(3) show ?thesis by auto
qed

text \<open>The hex rendering is injective and doubles the length.\<close>

lemma hexDigit_inj:
  assumes "m < 16" and "n < 16" and "hexDigit m = hexDigit n"
  shows "m = n"
proof -
  have "distinct ''0123456789abcdef''" by simp
  moreover have "length ''0123456789abcdef'' = 16" by simp
  ultimately show ?thesis
    using assms unfolding hexDigit_def by (metis nth_eq_iff_index_eq)
qed

lemma hex_byte_inj:
  fixes a b :: byte
  assumes "hexDigit (unat a div 16) = hexDigit (unat b div 16)"
    and "hexDigit (unat a mod 16) = hexDigit (unat b mod 16)"
  shows "a = b"
proof -
  have a: "unat a < 256" and b: "unat b < 256"
    using unsigned_less[of a] unsigned_less[of b] by simp_all
  then have "unat a div 16 < 16" "unat b div 16 < 16" by simp_all
  with assms(1) have d: "unat a div 16 = unat b div 16" by (rule hexDigit_inj[rotated 2])
  have "unat a mod 16 = unat b mod 16"
    using assms(2) by (intro hexDigit_inj) simp_all
  with d have "unat a = unat b" by (metis div_mult_mod_eq)
  then show ?thesis by (simp add: word_unat_eq_iff)
qed

lemma toString_hex_inj: "toString_hex xs = toString_hex ys \<Longrightarrow> xs = ys"
proof (induction xs arbitrary: ys)
  case Nil
  then show ?case by (cases ys) (simp_all add: toString_hex_def)
next
  case (Cons x xs)
  then obtain y ys' where ys: "ys = y # ys'"
    by (cases ys) (simp_all add: toString_hex_def)
  with Cons.prems have "x = y" and "toString_hex xs = toString_hex ys'"
    by (simp_all add: toString_hex_def hex_byte_inj)
  with Cons.IH ys show ?case by simp
qed

lemma length_toString_hex: "length (toString_hex bs) = 2 * length bs"
  by (induction bs) (simp_all add: toString_hex_def)

text \<open>
  Claim C4. Two files of a scan with identical bytes and identical extension get the same
  fingerprint, wherever they are: the fingerprint of a file is the hex rendering of the
  BLAKE3 digest, asked for with 16 bytes, of the base64 text of its bytes followed by its
  extension without the dot, and when the digest has the 16 bytes asked for it is 32
  characters long.
\<close>

theorem fingerprint_of_bytes_and_extension:
  assumes "findUploadableFiles env fs dir = Inr scanned"
    and "f1 \<in> set scanned" and "f2 \<in> set scanned"
    and "readFile fs (absolutePath f1) = Inr contents"
    and "readFile fs (absolutePath f2) = Inr contents"
    and "extname env (absolutePath f1) = extname env (absolutePath f2)"
    and "length (blake3 env (toString_base64 contents @ drop 1 (extname env (absolutePath f1))) 16) = 16"
  shows "hash f1 = hash f2 \<and>
         hash f1 = toString_hex (blake3 env
                     (toString_base64 contents @ drop 1 (extname env (absolutePath f1))) 16) \<and>
         length (hash f1) = 32"
proof -
  have h1: "hash f1 = toString_hex (blake3 env (hashData env (absolutePath f1) contents) 16)"
    using assms(1,2,4) by (rule scanned_hash)
  have h2: "hash f2 = toString_hex (blake3 env (hashData env (absolutePath f2) contents) 16)"
    using assms(1,3,5) by (rule scanned_hash)
  from h1 h2 assms(6,7) show ?thesis
    by (simp add: hashData_def length_toString_hex)
qed

theorem fingerprint_of_bytes_and_extension_witness:
  "findUploadableFiles exampleEnv exampleFs ''/site'' = Inr exampleScan \<and>
   exampleScan ! 1 \<in> set exampleScan \<and> exampleScan ! 2 \<in> set exampleScan \<and>
   absolutePath (exampleScan ! 1) = ''/site/a.txt'' \<and>
   absolutePath (exampleScan ! 2) = ''/site/docs/a.txt'' \<and>
   readFile exampleFs (absolutePath (exampleScan ! 1)) = Inr [104, 105] \<and>
   readFile exampleFs (absolutePath (exampleScan ! 2)) = Inr [104, 105] \<and>
   extname exampleEnv (absolutePath (exampleScan ! 1))
     = extname exampleEnv (absolutePath (exampleScan ! 2)) \<and>
   hash (exampleScan ! 1) = hash (exampleScan ! 2) \<and>
   hash (exampleScan ! 1) = ''7478743d6b4761000000000000000000'' \<and>
   length (hash (exampleScan ! 1)) = 32"
proof -
  have mem: "exampleScan ! 1 \<in> set exampleScan" "exampleScan ! 2 \<in> set exampleScan"
    by (simp_all add: exampleScan_def)
  have p: "absolutePath (exampleScan ! 1) = ''/site/a.txt''"
    "absolutePath (exampleScan ! 2) = ''/site/docs/a.txt''"
    by (simp_all add: exampleScan_def)
  have r: "readFile exampleFs (absolutePath (exampleScan ! 1)) = Inr [104, 105]"
    "readFile exampleFs (absolutePath (exampleScan ! 2)) = Inr [104, 105]"
    unfolding p by (simp_all add: exampleFs_def exampleContents_def)
  have e: "extname exampleEnv (absolutePath (exampleScan ! 1))
             = extname exampleEnv (absolutePath (exampleScan ! 2))"
    unfolding p by (simp add: example_simps)
  have l: "length (blake3 exampleEnv (toString_base64 [104, 105]
             @ drop 1 (extname exampleEnv (absolutePath (exampleScan ! 1)))) 16) = 16"
    unfolding p by (simp add: example_simps)
  have v: "hash (exampleScan ! 1) = ''7478743d6b4761000000000000000000''"
    by (simp add: exampleScan_def)
  from fingerprint_of_bytes_and_extension[OF example_scan mem r e l]
  have "hash (exampleScan ! 1) = hash (exampleScan ! 2) \<and> length (hash (exampleScan ! 1)) = 32"
    by blast
  with example_scan mem p r e v show ?thesis by blast
qed


text \<open>
  Claim C5. Two files of a scan with identical bytes but different extensions (the
  extension being what the source appends, \<open>extname\<close> without its dot) are hashed from
  different material, and when the digest does not collide on these two strings their
  fingerprints differ.
\<close>

theorem fingerprint_differs_with_extension:
  assumes "findUploadableFiles env fs dir = Inr scanned"
    and "f1 \<in> set scanned" and "f2 \<in> set scanned"
    and "readFile fs (absolutePath f1) = Inr contents"
    and "readFile fs (absolutePath f2) = Inr contents"
    and "drop 1 (extname env (absolutePath f1)) \<noteq> drop 1 (extname env (absolutePath f2))"
    and "inj_on (\<lambda>s. blake3 env s 16)
           {hashData env (absolutePath f1) contents, hashData env (absolutePath f2) contents}"
  shows "hashData env (absolutePath f1) contents \<noteq> hashData env (absolutePath f2) contents \<and>
         hash f1 \<noteq> hash f2"
proof -
  let ?s1 = "hashData env (absolutePath f1) contents"
  let ?s2 = "hashData env (absolutePath f2) contents"
  have h1: "hash f1 = toString_hex (blake3 env ?s1 16)"
    using assms(1,2,4) by (rule scanned_hash)
  have h2: "hash f2 = toString_hex (blake3 env ?s2 16)"
    using assms(1,3,5) by (rule scanned_hash)
  have material: "?s1 \<noteq> ?s2"
    using assms(6) by (simp add: hashData_def)
  with assms(7) have "blake3 env ?s1 16 \<noteq> blake3 env ?s2 16"
    by (auto simp: inj_on_def)
  then have "hash f1 \<noteq> hash f2"
    unfolding h1 h2 by (blast dest: toString_hex_inj)
  with material show ?thesis by simp
qed

theorem fingerprint_differs_with_extension_witness:
  "findUploadableFiles exampleEnv exampleFs ''/site'' = Inr exampleScan \<and>
   exampleScan ! 1 \<in> set exampleScan \<and> exampleScan ! 3 \<in> set exampleScan \<and>
   absolutePath (exampleScan ! 1) = ''/site/a.txt'' \<and>
   absolutePath (exampleScan ! 3) = ''/site/docs/a.md'' \<and>
   readFile exampleFs (absolutePath (exampleScan ! 1)) = Inr [104, 105] \<and>
   readFile exampleFs (absolutePath (exampleScan ! 3)) = Inr [104, 105] \<and>
   drop 1 (extname exampleEnv (absolutePath (exampleScan ! 1)))
     \<noteq> drop 1 (extname exampleEnv (absolutePath (exampleScan ! 3))) \<and>
   inj_on (\<lambda>s. blake3 exampleEnv s 16)
     {hashData exampleEnv (absolutePath (exampleScan ! 1)) [104, 105],
      hashData exampleEnv (absolutePath (exampleScan ! 3)) [104, 105]} \<and>
   hashData exampleEnv (absolutePath (exampleScan ! 1)) [104, 105]
     \<noteq> hashData exampleEnv (absolutePath (exampleScan ! 3)) [104, 105] \<and>
   hash (exampleScan ! 1) \<noteq> hash (exampleScan ! 3)"
proof -
  have mem: "exampleScan ! 1 \<in> set exampleScan" "exampleScan ! 3 \<in> set exampleScan"
    by (simp_all add: exampleScan_def)
  have p: "absolutePath (exampleScan ! 1) = ''/site/a.txt''"
    "absolutePath (exampleScan ! 3) = ''/site/docs/a.md''"
    by (simp_all add: exampleScan_def)
  have r: "readFile exampleFs (absolutePath (exampleScan ! 1)) = Inr [104, 105]"
    "readFile exampleFs (absolutePath (exampleScan ! 3)) = Inr [104, 105]"
    unfolding p by (simp_all add: exampleFs_def exampleContents_def)
  have e: "drop 1 (extname exampleEnv (absolutePath (exampleScan ! 1)))
             \<noteq> drop 1 (extname exampleEnv (absolutePath (exampleScan ! 3)))"
    unfolding p by (simp add: example_simps)
  have i: "inj_on (\<lambda>s. blake3 exampleEnv s 16)
     {hashData exampleEnv (absolutePath (exampleScan ! 1)) [104, 105],
      hashData exampleEnv (absolutePath (exampleScan ! 3)) [104, 105]}"
    unfolding p by (simp add: hashData_def example_simps)
  from fingerprint_differs_with_extension[OF example_scan mem r e i] example_scan mem p r e i
  show ?thesis by blast
qed

text \<open>
  The extension is taken without its dot: a name ending in a bare dot, for which
  \<open>extname\<close> is \<open>"."\<close>, is hashed like a name with no extension.
\<close>

lemma bare_dot_extension_not_hashed:
  assumes "extname env p1 = ''.''" and "extname env p2 = []"
  shows "hashData env p1 contents = hashData env p2 contents"
  using assms by (simp add: hashData_def)

section \<open>What the packer, the manifest and a run contain\<close>

text \<open>The packer neither drops nor duplicates a file.\<close>

lemma update_contents:
  "k < length xs \<Longrightarrow>
     mset (concat (map g (xs[k := v]))) + mset (g (xs ! k)) = mset (concat (map g xs)) + mset (g v)"
proof (induction xs arbitrary: k)
  case Nil
  then show ?case by simp
next
  case (Cons x xs)
  show ?case
  proof (cases k)
    case 0
    then show ?thesis by simp
  next
    case (Suc m)
    with Cons.prems have "m < length xs" by simp
    from Cons.IH[OF this] Suc show ?thesis by (simp add: ac_simps)
  qed
qed

lemma packFile_contents:
  "mset (concat (map files (packFile buckets f i))) = mset (concat (map files buckets)) + {#f#}"
proof (cases "findOffset buckets f i")
  case None
  then show ?thesis by (simp add: packFile_def addFile_def)
next
  case (Some j)
  let ?k = "(j + i) mod length buckets"
  from findOffset_Some(1)[OF Some] have k: "?k < length buckets"
    by (cases "length buckets = 0") simp_all
  from update_contents[OF k, of files "addFile (buckets ! ?k) f"]
  have "mset (concat (map files (buckets[?k := addFile (buckets ! ?k) f])))
          = mset (concat (map files buckets)) + {#f#}"
    by (simp add: addFile_def)
  with Some show ?thesis by (simp add: packFile_def Let_def)
qed

lemma reduce_contents:
  "mset (concat (map files (reduce packFile fs i buckets)))
     = mset (concat (map files buckets)) + mset fs"
  by (induction fs arbitrary: i buckets) (simp_all add: packFile_contents)

lemma uploadBuckets_contents: "mset (concat (map files (uploadBuckets fs))) = mset fs"
  by (simp add: uploadBuckets_def reduce_contents replicate_3)

lemma nonEmpty_contents: "concat (map files (nonEmpty buckets)) = concat (map files buckets)"
  by (induction buckets) (simp_all add: nonEmpty_def)

lemma filesToUpload_contents:
  "mset (filesToUpload scanned missingHashes)
     = mset (filter (\<lambda>file. hash file \<in> set missingHashes) scanned)"
  by (simp add: filesToUpload_def)

text \<open>
  \<open>Object.fromEntries\<close> on pairs with distinct keys is the list of pairs; in general
  the last pair of a key wins.
\<close>

lemma update_fresh: "k \<notin> fst ` set al \<Longrightarrow> AList.update k v al = al @ [(k, v)]"
  by (induction al) auto

lemma fold_update_distinct:
  "distinct (map fst (al @ es)) \<Longrightarrow> fold (\<lambda>(k, v) obj. AList.update k v obj) es al = al @ es"
proof (induction es arbitrary: al)
  case Nil
  then show ?case by simp
next
  case (Cons e es)
  obtain k v where e: "e = (k, v)" by (cases e)
  with Cons.prems have fresh: "k \<notin> fst ` set al" by auto
  have "distinct (map fst ((al @ [(k, v)]) @ es))" using Cons.prems e by simp
  from Cons.IH[OF this] fresh e show ?case by (simp add: update_fresh)
qed

lemma fromEntries_distinct: "distinct (map fst es) \<Longrightarrow> fromEntries es = es"
  using fold_update_distinct[of "[]" es] by (simp add: fromEntries_def)

lemma map_of_fold_update:
  "map_of (fold (\<lambda>(k, v) obj. AList.update k v obj) es al) = map_of al ++ map_of (rev es)"
proof (induction es arbitrary: al)
  case Nil
  then show ?case by simp
next
  case (Cons e es)
  obtain k v where e: "e = (k, v)" by (cases e)
  show ?case
    unfolding e by (simp add: Cons.IH update_conv) (auto simp: map_add_def fun_eq_iff split: option.splits)
qed

lemma map_of_fromEntries: "map_of (fromEntries es) = map_of (rev es)"
  by (simp add: fromEntries_def map_of_fold_update)

lemma manifest_distinct:
  "distinct (map publicUrl scanned) \<Longrightarrow>
     manifest scanned = map (\<lambda>file. (publicUrl file, hash file)) scanned"
  by (simp add: manifest_def fromEntries_distinct comp_def)

lemma manifest_keys: "fst ` set (manifest scanned) = publicUrl ` set scanned"
proof -
  have "fst ` set (manifest scanned) = dom (map_of (manifest scanned))"
    by (simp add: dom_map_of_conv_image_fst)
  also have "\<dots> = dom (map_of (rev (map (\<lambda>file. (publicUrl file, hash file)) scanned)))"
    by (simp add: manifest_def map_of_fromEntries)
  also have "\<dots> = publicUrl ` set scanned"
    by (simp add: dom_map_of_conv_image_fst image_image)
  finally show ?thesis .
qed

text \<open>
  Every call of \<open>cfApiRequest\<close> sends exactly one request; a call that returns a result
  got a response that is \<open>ok\<close>.
\<close>

lemma cfApiRequest_sent:
  "snd (snd (cfApiRequest env fetch method url token body s))
     = snd s @ [requestOf env method url token body]"
  by (simp add: cfApiRequest_def requestOf_def Let_def split: prod.splits)

lemma cfApiRequest_Inr:
  assumes "cfApiRequest env fetch method url token body s = (Inr result, s')"
  shows "\<exists>response. fetch (requestOf env method url token body) (fst s) = (Inr response, fst s')
           \<and> ok response \<and> json_result response = Inr result"
    and "snd s' = snd s @ [requestOf env method url token body]"
  using assms
  by (auto simp: cfApiRequest_def requestOf_def Let_def split: prod.splits sum.splits if_splits)

lemma promiseAll_Inr: "promiseAll rs = Inr ys \<Longrightarrow> rs = map Inr ys"
  by (induction rs arbitrary: ys) (auto split: sum.splits)

text \<open>
  Successful bucket uploads send one request for each bucket, whose payload has one entry
  for each file of the bucket, in order.
\<close>

lemma uploadBucket_Inr:
  assumes "uploadBucket env fs fetch uploadsJwt b s = (Inr u, s')"
  shows "\<exists>payload. map (payloadEntry fs) (files b) = map Inr payload \<and>
           snd s' = snd s @ [requestOf env ''POST'' ''/pages/assets/upload'' uploadsJwt
                               (Payload payload)]"
proof (cases "promiseAll (map (payloadEntry fs) (files b))")
  case (Inl e)
  with assms show ?thesis by (simp add: uploadBucket_def)
next
  case (Inr payload)
  with assms have "cfApiRequest env fetch ''POST'' ''/pages/assets/upload'' uploadsJwt
                     (Payload payload) s = (Inr u, s')"
    by (simp add: uploadBucket_def)
  from cfApiRequest_Inr(2)[OF this] promiseAll_Inr[OF Inr] show ?thesis by blast
qed

lemma uploadAll_Inr:
  assumes "uploadAll env fs fetch uploadsJwt bs s = (Inr u, s')"
  shows "\<exists>payloads.
           map (payloadEntry fs) (concat (map files bs)) = map Inr (concat payloads) \<and>
           snd s' = snd s @ map (\<lambda>p. requestOf env ''POST'' ''/pages/assets/upload'' uploadsJwt
                                        (Payload p)) payloads"
  using assms
proof (induction bs arbitrary: s u)
  case Nil
  then show ?case by (auto intro: exI[of _ "[]"])
next
  case (Cons b bs)
  obtain r s1 where first: "uploadBucket env fs fetch uploadsJwt b s = (r, s1)"
    by (cases "uploadBucket env fs fetch uploadsJwt b s")
  obtain rs s2 where rest: "uploadAll env fs fetch uploadsJwt bs s1 = (rs, s2)"
    by (cases "uploadAll env fs fetch uploadsJwt bs s1")
  from Cons.prems first rest obtain u1 where r: "r = Inr u1" and rs: "rs = Inr u" and s2: "s2 = s'"
    by (auto split: sum.splits)
  from uploadBucket_Inr[OF first[unfolded r]] obtain payload where
    p: "map (payloadEntry fs) (files b) = map Inr payload"
    "snd s1 = snd s @ [requestOf env ''POST'' ''/pages/assets/upload'' uploadsJwt (Payload payload)]"
    by blast
  from Cons.IH[OF rest[unfolded rs s2]] obtain payloads where
    ps: "map (payloadEntry fs) (concat (map files bs)) = map Inr (concat payloads)"
    "snd s' = snd s1 @ map (\<lambda>p. requestOf env ''POST'' ''/pages/assets/upload'' uploadsJwt
                                (Payload p)) payloads"
    by blast
  from p ps show ?case
    by (intro exI[of _ "payload # payloads"]) simp
qed

lemma uploadedPayload_append [simp]:
  "uploadedPayload (xs @ ys) = uploadedPayload xs @ uploadedPayload ys"
  by (simp add: uploadedPayload_def)

lemma submittedForms_append [simp]:
  "submittedForms (xs @ ys) = submittedForms xs @ submittedForms ys"
  by (simp add: submittedForms_def)

lemma uploadedPayload_uploads:
  "uploadedPayload (map (\<lambda>p. requestOf env method url token (Payload p)) payloads)
     = concat payloads"
  by (induction payloads) (simp_all add: uploadedPayload_def payloadOf_def requestOf_def)

lemma submittedForms_uploads:
  "submittedForms (map (\<lambda>p. requestOf env method url token (Payload p)) payloads) = []"
  by (induction payloads) (simp_all add: submittedForms_def formsOf_def requestOf_def)

text \<open>
  A run of \<open>upload\<close> that returns a deployment went through every stage, and sent the
  token request, the check-missing request, one upload request for each non-empty bucket,
  the upsert request and the deployment request, in this order.
\<close>

lemma upload_Inr:
  assumes "upload env fs remote cfToken directory accountId projectName git s0 = (Inr deployment, s)"
  obtains scanned token s1 missingHashes s2 payloads where
    "findUploadableFiles env fs directory = Inr scanned"
    and "cfApiRequest env (fetch_DirectUploadsJWT remote) ''GET''
           (''/accounts/'' @ accountId @ ''/pages/projects/'' @ projectName @ ''/upload-token'')
           cfToken Undefined s0 = (Inr token, s1)"
    and "cfApiRequest env (fetch_strings remote) ''POST'' ''/pages/assets/check-missing''
           (jwt token) (Hashes (map hash scanned)) s1 = (Inr missingHashes, s2)"
    and "map (payloadEntry fs)
           (concat (map files (uploadBuckets (filesToUpload scanned missingHashes))))
         = map Inr (concat payloads)"
    and "snd s = snd s0 @
           [requestOf env ''GET''
              (''/accounts/'' @ accountId @ ''/pages/projects/'' @ projectName @ ''/upload-token'')
              cfToken Undefined,
            requestOf env ''POST'' ''/pages/assets/check-missing'' (jwt token)
              (Hashes (map hash scanned))]
           @ map (\<lambda>p. requestOf env ''POST'' ''/pages/assets/upload'' (jwt token) (Payload p))
               payloads
           @ [requestOf env ''POST'' ''/pages/assets/upsert-hashes'' (jwt token)
                (Hashes (map hash scanned)),
              requestOf env ''POST''
                (''/accounts/'' @ accountId @ ''/pages/projects/'' @ projectName @ ''/deployments'')
                cfToken (FormData (formData env fs directory git scanned))]"
proof -
  from assms obtain scanned where scan: "findUploadableFiles env fs directory = Inr scanned"
    by (auto simp: upload_def split: sum.splits)
  let ?r1 = "cfApiRequest env (fetch_DirectUploadsJWT remote) ''GET''
           (''/accounts/'' @ accountId @ ''/pages/projects/'' @ projectName @ ''/upload-token'')
           cfToken Undefined s0"
  from assms scan obtain token s1 where t: "?r1 = (Inr token, s1)"
    by (cases ?r1) (auto simp: upload_def split: sum.splits)
  let ?r2 = "cfApiRequest env (fetch_strings remote) ''POST'' ''/pages/assets/check-missing''
           (jwt token) (Hashes (map hash scanned)) s1"
  from assms scan t obtain missingHashes s2 where m: "?r2 = (Inr missingHashes, s2)"
    by (cases ?r2) (auto simp: upload_def split: sum.splits)
  let ?r3 = "uploadAll env fs (fetch_unknown remote) (jwt token)
             (nonEmpty (uploadBuckets (filesToUpload scanned missingHashes))) s2"
  from assms scan t m obtain u s3 where up: "?r3 = (Inr u, s3)"
    by (cases ?r3) (auto simp: upload_def split: sum.splits)
  let ?r4 = "cfApiRequest env (fetch_unknown remote) ''POST'' ''/pages/assets/upsert-hashes''
             (jwt token) (Hashes (map hash scanned)) s3"
  from assms scan t m up obtain u' s4 where h: "?r4 = (Inr u', s4)"
    by (cases ?r4) (auto simp: upload_def split: sum.splits)
  from assms scan t m up h have d:
    "createDeployment env fs remote cfToken directory accountId projectName git scanned s4
       = (Inr deployment, s)"
    by (simp add: upload_def)
  from uploadAll_Inr[OF up] obtain payloads where
    ps: "map (payloadEntry fs)
           (concat (map files (uploadBuckets (filesToUpload scanned missingHashes))))
         = map Inr (concat payloads)"
    "snd s3 = snd s2 @ map (\<lambda>p. requestOf env ''POST'' ''/pages/assets/upload'' (jwt token)
                                (Payload p)) payloads"
    unfolding nonEmpty_contents by blast
  have "snd s = snd s4 @ [requestOf env ''POST''
                (''/accounts/'' @ accountId @ ''/pages/projects/'' @ projectName @ ''/deployments'')
                cfToken (FormData (formData env fs directory git scanned))]"
    using cfApiRequest_Inr(2)[OF d[unfolded createDeployment_def]] .
  with cfApiRequest_Inr(2)[OF t] cfApiRequest_Inr(2)[OF m] cfApiRequest_Inr(2)[OF h] ps(2)
  have "snd s = snd s0 @
           [requestOf env ''GET''
              (''/accounts/'' @ accountId @ ''/pages/projects/'' @ projectName @ ''/upload-token'')
              cfToken Undefined,
            requestOf env ''POST'' ''/pages/assets/check-missing'' (jwt token)
              (Hashes (map hash scanned))]
           @ map (\<lambda>p. requestOf env ''POST'' ''/pages/assets/upload'' (jwt token) (Payload p))
               payloads
           @ [requestOf env ''POST'' ''/pages/assets/upsert-hashes'' (jwt token)
                (Hashes (map hash scanned)),
              requestOf env ''POST''
                (''/accounts/'' @ accountId @ ''/pages/projects/'' @ projectName @ ''/deployments'')
                cfToken (FormData (formData env fs directory git scanned))]"
    by simp
  with scan t m ps(1) show ?thesis by (rule that)
qed

section \<open>Reserved file names\<close>

lemma uploadableEntries_filter:
  "uploadableEntries dirEntries =
     filter (\<lambda>entry. isFile entry \<and>
              name entry \<notin> {''_worker.js'', ''_redirects'', ''_headers'', ''_routes.json''})
       dirEntries"
  by (simp add: uploadableEntries_def ignoredFiles_def conj_commute)

text \<open>
  Claim C7. The records of a successful scan correspond one to one, in order, to the
  directory entries that are regular files and are not named \<open>_worker.js\<close>,
  \<open>_redirects\<close>, \<open>_headers\<close> or \<open>_routes.json\<close>; the directory of an entry plays no
  part in the test, so a reserved name is left out at any depth. Every record comes from
  such an entry, the keys of the manifest are the public paths of the records, and every
  file of every upload bucket is one of the records.
\<close>

theorem reserved_names_excluded:
  assumes "findUploadableFiles env fs dir = Inr scanned"
    and "readdir fs (resolve env [dir]) = Inr dirEntries"
  shows "list_all2 (\<lambda>entry f. uploadableFile env fs (resolve env [dir]) entry = Inr f)
           (filter (\<lambda>entry. isFile entry \<and>
                      name entry \<notin> {''_worker.js'', ''_redirects'', ''_headers'', ''_routes.json''})
              dirEntries)
           scanned \<and>
         (\<forall>f \<in> set scanned. \<exists>entry \<in> set dirEntries.
            name entry \<notin> {''_worker.js'', ''_redirects'', ''_headers'', ''_routes.json''} \<and>
            uploadableFile env fs (resolve env [dir]) entry = Inr f) \<and>
         fst ` set (manifest scanned) = publicUrl ` set scanned \<and>
         (\<forall>b \<in> set (uploadBuckets (filesToUpload scanned missingHashes)).
            set (files b) \<subseteq> set scanned)"
proof -
  from assms(1) obtain entries where
    "readdir fs (resolve env [dir]) = Inr entries"
    and "list_all2 (\<lambda>entry f. uploadableFile env fs (resolve env [dir]) entry = Inr f)
           (uploadableEntries entries) scanned"
    by (rule scanned_entries)
  with assms(2) have all2: "list_all2 (\<lambda>entry f. uploadableFile env fs (resolve env [dir]) entry = Inr f)
           (uploadableEntries dirEntries) scanned"
    by simp
  have "\<exists>entry \<in> set dirEntries.
            name entry \<notin> {''_worker.js'', ''_redirects'', ''_headers'', ''_routes.json''} \<and>
            uploadableFile env fs (resolve env [dir]) entry = Inr f" if "f \<in> set scanned" for f
  proof -
    from list_all2_right[OF all2 that] obtain entry where
      "entry \<in> set (uploadableEntries dirEntries)"
      "uploadableFile env fs (resolve env [dir]) entry = Inr f"
      by blast
    then show ?thesis unfolding uploadableEntries_filter by auto
  qed
  moreover have "set (files b) \<subseteq> set scanned"
    if "b \<in> set (uploadBuckets (filesToUpload scanned missingHashes))" for b
  proof -
    have "set (concat (map files (uploadBuckets (filesToUpload scanned missingHashes))))
            = set (filter (\<lambda>file. hash file \<in> set missingHashes) scanned)"
      using uploadBuckets_contents[of "filesToUpload scanned missingHashes"]
      by (metis filesToUpload_contents mset_eq_setD)
    with that show ?thesis by auto
  qed
  ultimately show ?thesis
    using all2 manifest_keys[of scanned] unfolding uploadableEntries_filter by blast
qed

theorem reserved_names_excluded_witness:
  "findUploadableFiles exampleEnv exampleFs ''/site'' = Inr exampleScan \<and>
   readdir exampleFs (resolve exampleEnv [''/site'']) = Inr exampleEntries \<and>
   map name exampleEntries
     = [''index.html'', ''docs'', ''a.txt'', ''_headers'', ''a.txt'', ''a.md'', ''_routes.json''] \<and>
   list_all2 (\<lambda>entry f. uploadableFile exampleEnv exampleFs (resolve exampleEnv [''/site'']) entry
                = Inr f)
     (filter (\<lambda>entry. isFile entry \<and>
                name entry \<notin> {''_worker.js'', ''_redirects'', ''_headers'', ''_routes.json''})
        exampleEntries)
     exampleScan \<and>
   map absolutePath exampleScan
     = [''/site/index.html'', ''/site/a.txt'', ''/site/docs/a.txt'', ''/site/docs/a.md''] \<and>
   fst ` set (manifest exampleScan) = publicUrl ` set exampleScan"
proof -
  have r: "readdir exampleFs (resolve exampleEnv [''/site'']) = Inr exampleEntries"
    by (simp add: example_simps)
  have n: "map name exampleEntries
     = [''index.html'', ''docs'', ''a.txt'', ''_headers'', ''a.txt'', ''a.md'', ''_routes.json'']"
    by (simp add: exampleEntries_def)
  have p: "map absolutePath exampleScan
     = [''/site/index.html'', ''/site/a.txt'', ''/site/docs/a.txt'', ''/site/docs/a.md'']"
    by (simp add: exampleScan_def)
  from reserved_names_excluded[OF example_scan r, of "[]"] example_scan r n p
  show ?thesis by blast
qed

section \<open>Responses that are not successful\<close>

text \<open>
  Claim C8. Whatever the request is (method, URL, token and body are arbitrary, so this
  covers the project, upload-token, check-missing, upload, upsert-hashes and deployment
  requests), when \<open>fetch\<close> answers with a status outside 200 to 299 the helper returns
  no result: it throws the error whose message carries the status and the body text of
  the response.
\<close>

theorem non_2xx_response_is_fatal:
  assumes "fetch \<lparr>method_request = method, url_request = cfBaseUrl @ url,
                  userAgent = userAgent_of env, authorization = ''Bearer '' @ token,
                  body_request = body\<rparr> n = (Inr response, n')"
    and "status response < 200 \<or> 299 < status response"
  shows "cfApiRequest env fetch method url token body (n, sent) =
           (Inl (Error (''Cloudflare API request failed with status ''
                        @ toString_number (status response) @ '': '' @ text_response response)),
            (n', sent @ [\<lparr>method_request = method, url_request = cfBaseUrl @ url,
                  userAgent = userAgent_of env, authorization = ''Bearer '' @ token,
                  body_request = body\<rparr>]))"
  using assms by (auto simp: cfApiRequest_def ok_def)

lemma toString_number_404: "toString_number 404 = ''404''"
  by (simp add: toString_number.simps)

theorem non_2xx_response_is_fatal_witness:
  "fetch_Project exampleRemote
     \<lparr>method_request = ''GET'', url_request = cfBaseUrl @ ''/accounts/acc/pages/projects/proj'',
      userAgent = userAgent_of exampleEnv, authorization = ''Bearer '' @ ''tok'',
      body_request = Undefined\<rparr> []
     = (Inr \<lparr>status = 404, text_response = ''project not found'',
             json_result = Inl (SyntaxError ''Unexpected token'')\<rparr>, []) \<and>
   ((404 :: nat) < 200 \<or> (299 :: nat) < 404) \<and>
   cfApiRequest exampleEnv (fetch_Project exampleRemote) ''GET''
       ''/accounts/acc/pages/projects/proj'' ''tok'' Undefined ([], [])
     = (Inl (Error ''Cloudflare API request failed with status 404: project not found''),
        ([], [\<lparr>method_request = ''GET'',
               url_request = cfBaseUrl @ ''/accounts/acc/pages/projects/proj'',
               userAgent = userAgent_of exampleEnv, authorization = ''Bearer '' @ ''tok'',
               body_request = Undefined\<rparr>]))"
proof -
  let ?response = "\<lparr>status = 404, text_response = ''project not found'',
             json_result = Inl (SyntaxError ''Unexpected token'') :: error + string\<rparr>"
  have f: "fetch_Project exampleRemote
     \<lparr>method_request = ''GET'', url_request = cfBaseUrl @ ''/accounts/acc/pages/projects/proj'',
      userAgent = userAgent_of exampleEnv, authorization = ''Bearer '' @ ''tok'',
      body_request = Undefined\<rparr> [] = (Inr ?response, [])"
    by (simp add: exampleRemote_def)
  have s: "status ?response < 200 \<or> 299 < status ?response" by simp
  from non_2xx_response_is_fatal[of "fetch_Project exampleRemote" "''GET''"
      "''/accounts/acc/pages/projects/proj''" exampleEnv "''tok''" Undefined "[]" _ _ "[]",
      OF f s] f
  show ?thesis
    by (simp add: toString_number_404)
qed

section \<open>The example run, stage by stage\<close>

lemma example_token:
  "cfApiRequest exampleEnv (fetch_DirectUploadsJWT exampleRemote) ''GET''
     (''/accounts/'' @ ''acc'' @ ''/pages/projects/'' @ ''proj'' @ ''/upload-token'') ''tok''
     Undefined (exampleStore, [])
   = (Inr \<lparr>jwt = ''uploads-jwt''\<rparr>,
      (exampleStore, [requestOf exampleEnv ''GET''
          ''/accounts/acc/pages/projects/proj/upload-token'' ''tok'' Undefined]))"
  by (simp add: cfApiRequest_def exampleRemote_def ok_def requestOf_def)

lemma example_missing:
  "cfApiRequest exampleEnv (fetch_strings exampleRemote) ''POST'' ''/pages/assets/check-missing''
     ''uploads-jwt'' (Hashes (map hash exampleScan)) (exampleStore, sent)
   = (Inr exampleMissing,
      (exampleStore, sent @ [requestOf exampleEnv ''POST'' ''/pages/assets/check-missing''
          ''uploads-jwt'' (Hashes (map hash exampleScan))]))"
  by (simp add: cfApiRequest_def exampleRemote_def ok_def requestOf_def exampleScan_def
      exampleStore_def exampleMissing_def)

lemma example_chars: "char_of (47 :: nat) = CHR ''/''" "char_of (42 :: nat) = CHR ''*''"
  by code_simp+

lemma example_form: "formData exampleEnv exampleFs ''/site'' exampleGit exampleScan = exampleForm"
  by (simp add: formData_def manifest_def fromEntries_def optionalFile_def exampleGit_def
      exampleScan_def exampleForm_def example_simps example_chars)

lemma example_buckets:
  "nonEmpty (uploadBuckets (filesToUpload exampleScan exampleMissing))
   = exampleBuckets"
  by (simp add: filesToUpload_def exampleMissing_def exampleScan_def uploadBuckets_def
      replicate_3 packFile_def findOffset_def upt_0_3 fits_def addFile_def nonEmpty_def
      exampleBuckets_def)

lemma example_payloads:
  "map (\<lambda>b. promiseAll (map (payloadEntry exampleFs) (files b)))
     exampleBuckets
   = map Inr examplePayloads"
  by (simp add: payloadEntry_def exampleScan_def exampleFs_def exampleContents_def
      base64Digit_def examplePayloads_def exampleBuckets_def)

lemma example_upload_request:
  "cfApiRequest exampleEnv (fetch_unknown exampleRemote) ''POST'' ''/pages/assets/upload''
     ''uploads-jwt'' (Payload p) (n, sent)
   = (Inr (), (n @ map key p,
        sent @ [requestOf exampleEnv ''POST'' ''/pages/assets/upload'' ''uploads-jwt''
                  (Payload p)]))"
  by (simp add: cfApiRequest_def exampleRemote_def ok_def requestOf_def)

lemma example_uploads:
  "uploadAll exampleEnv exampleFs (fetch_unknown exampleRemote) ''uploads-jwt''
     exampleBuckets (n, sent)
   = (Inr (), (n @ map key (concat examplePayloads),
        sent @ map (\<lambda>p. requestOf exampleEnv ''POST'' ''/pages/assets/upload'' ''uploads-jwt''
                         (Payload p)) examplePayloads))"
  using example_payloads
  by (simp add: uploadBucket_def example_upload_request examplePayloads_def exampleBuckets_def)

lemma example_upsert:
  "cfApiRequest exampleEnv (fetch_unknown exampleRemote) ''POST'' ''/pages/assets/upsert-hashes''
     ''uploads-jwt'' (Hashes hs) (n, sent)
   = (Inr (), (n, sent @ [requestOf exampleEnv ''POST'' ''/pages/assets/upsert-hashes''
                           ''uploads-jwt'' (Hashes hs)]))"
  by (simp add: cfApiRequest_def exampleRemote_def ok_def requestOf_def)

lemma example_deployment:
  "createDeployment exampleEnv exampleFs exampleRemote ''tok'' ''/site'' ''acc'' ''proj''
     exampleGit exampleScan (n, sent)
   = (Inr (''deployment-'' @ toString_number (length n)),
      (n, sent @ [requestOf exampleEnv ''POST''
                    ''/accounts/acc/pages/projects/proj/deployments'' ''tok''
                    (FormData exampleForm)]))"
  by (simp add: createDeployment_def example_form cfApiRequest_def exampleRemote_def ok_def
      requestOf_def)

lemma example_run:
  "upload exampleEnv exampleFs exampleRemote ''tok'' ''/site'' ''acc'' ''proj'' exampleGit
     (exampleStore, [])
   = (Inr ''deployment-4'',
      (exampleStore @ map key (concat examplePayloads), exampleSent))"
proof -
  have "length exampleStore + length (concat examplePayloads) = 4"
    by (simp add: exampleStore_def examplePayloads_def)
  then have four:
    "toString_number (length exampleStore + length (concat examplePayloads)) = ''4''"
    by (simp only: toString_number.simps[of 4]) simp
  show ?thesis
    unfolding upload_def example_scan
    by (simp add: example_token[simplified] example_missing example_buckets example_uploads
        example_upsert example_deployment four exampleSent_def del: uploadAll.simps)
qed

section \<open>The manifest and the uploads of a run\<close>

text \<open>Reading the payload entries and the forms off a sequence of requests.\<close>

lemma payloadOf_requestOf:
  "payloadOf (requestOf env method url token body) = (case body of Payload p \<Rightarrow> p | _ \<Rightarrow> [])"
  by (simp add: payloadOf_def requestOf_def)

lemma formsOf_requestOf:
  "formsOf (requestOf env method url token body)
     = (case body of FormData form \<Rightarrow> [form] | _ \<Rightarrow> [])"
  by (simp add: formsOf_def requestOf_def)

lemma uploadedPayload_Cons: "uploadedPayload (r # rs) = payloadOf r @ uploadedPayload rs"
  by (simp add: uploadedPayload_def)

lemma submittedForms_Cons: "submittedForms (r # rs) = formsOf r @ submittedForms rs"
  by (simp add: submittedForms_def)

lemma transmitted_Nil: "uploadedPayload [] = []" "submittedForms [] = []"
  by (simp_all add: uploadedPayload_def submittedForms_def)

lemmas transmitted_simps = transmitted_Nil
  payloadOf_requestOf formsOf_requestOf uploadedPayload_Cons submittedForms_Cons
  uploadedPayload_uploads submittedForms_uploads

text \<open>The key of a payload entry is the fingerprint of its file.\<close>

lemma payload_keys:
  "map (payloadEntry fs) xs = map Inr ps \<Longrightarrow> map key ps = map hash xs"
proof (induction xs arbitrary: ps)
  case Nil
  then show ?case by simp
next
  case (Cons x xs)
  then obtain p ps' where "ps = p # ps'" by (cases ps) auto
  with Cons show ?case by (auto simp: payloadEntry_def split: sum.splits)
qed

text \<open>
  Claim C6. In a run of \<open>upload\<close> that returns a deployment, exactly one form is
  submitted, and its \<open>manifest\<close> field is the object that maps the public path of every
  scanned file to its fingerprint, whether the file was uploaded or not: when the public
  paths of the scanned files are pairwise distinct (as relative paths of distinct
  directory entries are), it lists one pair for each of the \<open>n\<close> scanned files, in scan
  order. The payload entries transmitted by the upload requests are those of exactly the
  scanned files whose fingerprint the check-missing request reported missing.
\<close>

theorem manifest_lists_every_scanned_file:
  assumes "upload env fs remote cfToken directory accountId projectName git (n0, [])
             = (Inr deployment, (n, sent))"
    and "findUploadableFiles env fs directory = Inr scanned"
    and "distinct (map publicUrl scanned)"
  shows "submittedForms sent = [formData env fs directory git scanned] \<and>
         map_of (formData env fs directory git scanned) ''manifest''
           = Some (JSON_stringify (map (\<lambda>file. (publicUrl file, hash file)) scanned)) \<and>
         (\<exists>token s1 missingHashes s2.
            cfApiRequest env (fetch_DirectUploadsJWT remote) ''GET''
              (''/accounts/'' @ accountId @ ''/pages/projects/'' @ projectName @ ''/upload-token'')
              cfToken Undefined (n0, []) = (Inr token, s1) \<and>
            cfApiRequest env (fetch_strings remote) ''POST'' ''/pages/assets/check-missing''
              (jwt token) (Hashes (map hash scanned)) s1 = (Inr missingHashes, s2) \<and>
            mset (map Inr (uploadedPayload sent))
              = mset (map (payloadEntry fs)
                        (filter (\<lambda>file. hash file \<in> set missingHashes) scanned)))"
proof -
  from assms(1) obtain scanned' token s1 missingHashes s2 payloads where
    scan: "findUploadableFiles env fs directory = Inr scanned'"
    and t: "cfApiRequest env (fetch_DirectUploadsJWT remote) ''GET''
           (''/accounts/'' @ accountId @ ''/pages/projects/'' @ projectName @ ''/upload-token'')
           cfToken Undefined (n0, []) = (Inr token, s1)"
    and m: "cfApiRequest env (fetch_strings remote) ''POST'' ''/pages/assets/check-missing''
           (jwt token) (Hashes (map hash scanned')) s1 = (Inr missingHashes, s2)"
    and ps: "map (payloadEntry fs)
           (concat (map files (uploadBuckets (filesToUpload scanned' missingHashes))))
         = map Inr (concat payloads)"
    and log: "snd (n, sent) = snd (n0, []) @
           [requestOf env ''GET''
              (''/accounts/'' @ accountId @ ''/pages/projects/'' @ projectName @ ''/upload-token'')
              cfToken Undefined,
            requestOf env ''POST'' ''/pages/assets/check-missing'' (jwt token)
              (Hashes (map hash scanned'))]
           @ map (\<lambda>p. requestOf env ''POST'' ''/pages/assets/upload'' (jwt token) (Payload p))
               payloads
           @ [requestOf env ''POST'' ''/pages/assets/upsert-hashes'' (jwt token)
                (Hashes (map hash scanned')),
              requestOf env ''POST''
                (''/accounts/'' @ accountId @ ''/pages/projects/'' @ projectName @ ''/deployments'')
                cfToken (FormData (formData env fs directory git scanned'))]"
    by (rule upload_Inr)
  from scan assms(2) have same: "scanned' = scanned" by simp
  have forms: "submittedForms sent = [formData env fs directory git scanned]"
    using log unfolding same
    by (simp add: transmitted_simps)
  have man: "map_of (formData env fs directory git scanned) ''manifest''
           = Some (JSON_stringify (map (\<lambda>file. (publicUrl file, hash file)) scanned))"
    using assms(3) by (simp add: formData_def manifest_distinct)
  have "uploadedPayload sent = concat payloads"
    using log
    by (simp add: transmitted_simps)
  then have "mset (map Inr (uploadedPayload sent))
      = image_mset (payloadEntry fs)
          (mset (concat (map files (uploadBuckets (filesToUpload scanned missingHashes)))))"
    using ps unfolding same by (metis mset_map)
  also have "\<dots> = mset (map (payloadEntry fs)
                        (filter (\<lambda>file. hash file \<in> set missingHashes) scanned))"
    by (simp add: uploadBuckets_contents filesToUpload_contents)
  finally show ?thesis using forms man t m unfolding same by blast
qed


theorem manifest_lists_every_scanned_file_witness:
  "upload exampleEnv exampleFs exampleRemote ''tok'' ''/site'' ''acc'' ''proj'' exampleGit
     (exampleStore, [])
   = (Inr ''deployment-4'', (exampleStore @ map key (concat examplePayloads), exampleSent)) \<and>
   findUploadableFiles exampleEnv exampleFs ''/site'' = Inr exampleScan \<and>
   distinct (map publicUrl exampleScan) \<and>
   length exampleScan = 4 \<and>
   length (uploadedPayload exampleSent) = 3 \<and>
   submittedForms exampleSent = [formData exampleEnv exampleFs ''/site'' exampleGit exampleScan] \<and>
   map_of (formData exampleEnv exampleFs ''/site'' exampleGit exampleScan) ''manifest''
     = Some (JSON_stringify (map (\<lambda>file. (publicUrl file, hash file)) exampleScan)) \<and>
   (\<exists>token s1 missingHashes s2.
      cfApiRequest exampleEnv (fetch_DirectUploadsJWT exampleRemote) ''GET''
        (''/accounts/'' @ ''acc'' @ ''/pages/projects/'' @ ''proj'' @ ''/upload-token'')
        ''tok'' Undefined (exampleStore, []) = (Inr token, s1) \<and>
      cfApiRequest exampleEnv (fetch_strings exampleRemote) ''POST'' ''/pages/assets/check-missing''
        (jwt token) (Hashes (map hash exampleScan)) s1 = (Inr missingHashes, s2) \<and>
      mset (map Inr (uploadedPayload exampleSent))
        = mset (map (payloadEntry exampleFs)
                  (filter (\<lambda>file. hash file \<in> set missingHashes) exampleScan)))"
proof -
  have d: "distinct (map publicUrl exampleScan)"
    by (simp add: exampleScan_def)
  have l: "length exampleScan = 4" "length (uploadedPayload exampleSent) = 3"
    by (simp_all add: exampleScan_def exampleSent_def examplePayloads_def transmitted_simps)
  from manifest_lists_every_scanned_file[OF example_run example_scan d] example_run
    example_scan d l
  show ?thesis by blast
qed

section \<open>No local deduplication\<close>

text \<open>The running totals of the buckets add up to the sizes of the files packed.\<close>

lemma update_sizes:
  "k < length xs \<Longrightarrow>
     sum_list (map size_bucket (xs[k := v])) + size_bucket (xs ! k)
       = sum_list (map size_bucket xs) + size_bucket v"
proof (induction xs arbitrary: k)
  case Nil
  then show ?case by simp
next
  case (Cons x xs)
  show ?case
  proof (cases k)
    case 0
    then show ?thesis by simp
  next
    case (Suc m)
    with Cons.prems have "m < length xs" by simp
    from Cons.IH[OF this] Suc show ?thesis by simp
  qed
qed

lemma packFile_sizes:
  "sum_list (map size_bucket (packFile buckets f i))
     = sum_list (map size_bucket buckets) + size_file f"
proof (cases "findOffset buckets f i")
  case None
  then show ?thesis by (simp add: packFile_def addFile_def)
next
  case (Some j)
  let ?k = "(j + i) mod length buckets"
  from findOffset_Some(1)[OF Some] have k: "?k < length buckets"
    by (cases "length buckets = 0") simp_all
  from update_sizes[OF k, of "addFile (buckets ! ?k) f"]
  have "sum_list (map size_bucket (buckets[?k := addFile (buckets ! ?k) f]))
          = sum_list (map size_bucket buckets) + size_file f"
    by (simp add: addFile_def)
  with Some show ?thesis by (simp add: packFile_def Let_def)
qed

lemma reduce_sizes:
  "sum_list (map size_bucket (reduce packFile fs i buckets))
     = sum_list (map size_bucket buckets) + sum_list (map size_file fs)"
  by (induction fs arbitrary: i buckets) (simp_all add: packFile_sizes)

lemma uploadBuckets_sizes:
  "sum_list (map size_bucket (uploadBuckets fs)) = sum_list (map size_file fs)"
  by (simp add: uploadBuckets_def reduce_sizes replicate_3)

text \<open>Two different members of a list are two elements of its multiset.\<close>

lemma two_members:
  assumes "x \<in> set xs" and "y \<in> set xs" and "x \<noteq> y"
  shows "{#x, y#} \<subseteq># mset xs"
proof -
  from assms(1) have "{#x#} \<subseteq># mset xs" by simp
  moreover from assms(2,3) have "y \<in># mset xs - {#x#}"
    by (simp add: in_diff_count)
  ultimately show ?thesis
    by (metis add_mset_add_single insert_subset_eq_iff mset_subset_eq_insertD single_subset_iff
        subset_mset.order_refl union_single_eq_member insert_DiffM)
qed


text \<open>
  Claim C10. Let two different records of the scan have the same fingerprint, reported
  missing by the remote store, in a run that returns a deployment. Then both records are
  in the to-upload list; the buckets hold every file of that list as often as the list
  does, and their running totals add up to the sizes of all of them, so each copy has
  its own slot and its own size; the shared key occurs at least twice among the payload
  entries transmitted; and (the public paths of the scan being pairwise distinct) the
  manifest maps both public paths to the shared fingerprint.
\<close>

theorem duplicates_are_uploaded_separately:
  assumes "upload env fs remote cfToken directory accountId projectName git (n0, [])
             = (Inr deployment, (n, sent))"
    and "findUploadableFiles env fs directory = Inr scanned"
    and "cfApiRequest env (fetch_DirectUploadsJWT remote) ''GET''
           (''/accounts/'' @ accountId @ ''/pages/projects/'' @ projectName @ ''/upload-token'')
           cfToken Undefined (n0, []) = (Inr token, s1)"
    and "cfApiRequest env (fetch_strings remote) ''POST'' ''/pages/assets/check-missing''
           (jwt token) (Hashes (map hash scanned)) s1 = (Inr missingHashes, s2)"
    and "f1 \<in> set scanned" and "f2 \<in> set scanned" and "f1 \<noteq> f2"
    and "hash f1 = hash f2" and "hash f1 \<in> set missingHashes"
    and "distinct (map publicUrl scanned)"
  shows "{#f1, f2#} \<subseteq># mset (filesToUpload scanned missingHashes) \<and>
         mset (concat (map files (uploadBuckets (filesToUpload scanned missingHashes))))
           = mset (filesToUpload scanned missingHashes) \<and>
         sum_list (map size_bucket (uploadBuckets (filesToUpload scanned missingHashes)))
           = sum_list (map size_file (filesToUpload scanned missingHashes)) \<and>
         2 \<le> count (mset (map key (uploadedPayload sent))) (hash f1) \<and>
         map_of (manifest scanned) (publicUrl f1) = Some (hash f1) \<and>
         map_of (manifest scanned) (publicUrl f2) = Some (hash f1)"
proof -
  let ?toUpload = "filesToUpload scanned missingHashes"
  have "f1 \<in> set (filter (\<lambda>file. hash file \<in> set missingHashes) scanned)"
    and "f2 \<in> set (filter (\<lambda>file. hash file \<in> set missingHashes) scanned)"
    using assms(5,6,8,9) by simp_all
  then have "{#f1, f2#} \<subseteq># mset (filter (\<lambda>file. hash file \<in> set missingHashes) scanned)"
    using assms(7) by (rule two_members)
  then have both: "{#f1, f2#} \<subseteq># mset ?toUpload"
    by (simp add: filesToUpload_contents)
  from assms(1) obtain scanned' token' s1' missingHashes' s2' payloads where
    scan: "findUploadableFiles env fs directory = Inr scanned'"
    and t: "cfApiRequest env (fetch_DirectUploadsJWT remote) ''GET''
           (''/accounts/'' @ accountId @ ''/pages/projects/'' @ projectName @ ''/upload-token'')
           cfToken Undefined (n0, []) = (Inr token', s1')"
    and m: "cfApiRequest env (fetch_strings remote) ''POST'' ''/pages/assets/check-missing''
           (jwt token') (Hashes (map hash scanned')) s1' = (Inr missingHashes', s2')"
    and ps: "map (payloadEntry fs)
           (concat (map files (uploadBuckets (filesToUpload scanned' missingHashes'))))
         = map Inr (concat payloads)"
    and log: "snd (n, sent) = snd (n0, []) @
           [requestOf env ''GET''
              (''/accounts/'' @ accountId @ ''/pages/projects/'' @ projectName @ ''/upload-token'')
              cfToken Undefined,
            requestOf env ''POST'' ''/pages/assets/check-missing'' (jwt token')
              (Hashes (map hash scanned'))]
           @ map (\<lambda>p. requestOf env ''POST'' ''/pages/assets/upload'' (jwt token') (Payload p))
               payloads
           @ [requestOf env ''POST'' ''/pages/assets/upsert-hashes'' (jwt token')
                (Hashes (map hash scanned')),
              requestOf env ''POST''
                (''/accounts/'' @ accountId @ ''/pages/projects/'' @ projectName @ ''/deployments'')
                cfToken (FormData (formData env fs directory git scanned'))]"
    by (rule upload_Inr)
  from scan assms(2) have s: "scanned' = scanned" by simp
  from t assms(3) have "token' = token" "s1' = s1" by simp_all
  with m assms(4) s have mh: "missingHashes' = missingHashes" by simp
  have "uploadedPayload sent = concat payloads"
    using log by (simp add: transmitted_simps)
  then have "map key (uploadedPayload sent)
      = map hash (concat (map files (uploadBuckets ?toUpload)))"
    using payload_keys[OF ps] s mh by simp
  then have "mset (map key (uploadedPayload sent)) = image_mset hash (mset ?toUpload)"
    using uploadBuckets_contents[of ?toUpload] by (metis mset_map)
  moreover have "image_mset hash {#f1, f2#} \<subseteq># image_mset hash (mset ?toUpload)"
    using both by (rule image_mset_subseteq_mono)
  ultimately have "image_mset hash {#f1, f2#} \<subseteq># mset (map key (uploadedPayload sent))"
    by (simp only:)
  then have "count (image_mset hash {#f1, f2#}) (hash f1)
      \<le> count (mset (map key (uploadedPayload sent))) (hash f1)"
    by (rule mset_subset_eq_count)
  moreover have "count (image_mset hash {#f1, f2#}) (hash f1) = 2"
    using assms(8) by simp
  ultimately have twice: "2 \<le> count (mset (map key (uploadedPayload sent))) (hash f1)"
    by (simp only:)
  have "map_of (manifest scanned) (publicUrl f) = Some (hash f)" if "f \<in> set scanned" for f
  proof -
    have "distinct (map fst (map (\<lambda>file. (publicUrl file, hash file)) scanned))"
      using assms(10) by (simp add: comp_def)
    moreover have "(publicUrl f, hash f) \<in> set (map (\<lambda>file. (publicUrl file, hash file)) scanned)"
      using that by auto
    ultimately show ?thesis
      using assms(10) by (simp only: manifest_distinct map_of_eq_Some_iff)
  qed
  from this[OF assms(5)] this[OF assms(6)] assms(8) both twice
  show ?thesis by (simp add: uploadBuckets_contents uploadBuckets_sizes)
qed

theorem duplicates_are_uploaded_separately_witness:
  "upload exampleEnv exampleFs exampleRemote ''tok'' ''/site'' ''acc'' ''proj'' exampleGit
     (exampleStore, [])
   = (Inr ''deployment-4'', (exampleStore @ map key (concat examplePayloads), exampleSent)) \<and>
   findUploadableFiles exampleEnv exampleFs ''/site'' = Inr exampleScan \<and>
   exampleScan ! 1 \<in> set exampleScan \<and> exampleScan ! 2 \<in> set exampleScan \<and>
   exampleScan ! 1 \<noteq> exampleScan ! 2 \<and>
   hash (exampleScan ! 1) = hash (exampleScan ! 2) \<and>
   hash (exampleScan ! 1) \<in> set exampleMissing \<and>
   distinct (map publicUrl exampleScan) \<and>
   {#exampleScan ! 1, exampleScan ! 2#} \<subseteq># mset (filesToUpload exampleScan exampleMissing) \<and>
   2 \<le> count (mset (map key (uploadedPayload exampleSent))) (hash (exampleScan ! 1)) \<and>
   map_of (manifest exampleScan) (publicUrl (exampleScan ! 1)) = Some (hash (exampleScan ! 1)) \<and>
   map_of (manifest exampleScan) (publicUrl (exampleScan ! 2)) = Some (hash (exampleScan ! 1))"
proof -
  have t: "cfApiRequest exampleEnv (fetch_DirectUploadsJWT exampleRemote) ''GET''
     (''/accounts/'' @ ''acc'' @ ''/pages/projects/'' @ ''proj'' @ ''/upload-token'') ''tok''
     Undefined (exampleStore, [])
   = (Inr \<lparr>jwt = ''uploads-jwt''\<rparr>,
      (exampleStore, [requestOf exampleEnv ''GET''
          ''/accounts/acc/pages/projects/proj/upload-token'' ''tok'' Undefined]))"
    by (rule example_token)
  have m: "cfApiRequest exampleEnv (fetch_strings exampleRemote) ''POST''
     ''/pages/assets/check-missing'' (jwt \<lparr>jwt = ''uploads-jwt''\<rparr>)
     (Hashes (map hash exampleScan))
     (exampleStore, [requestOf exampleEnv ''GET''
          ''/accounts/acc/pages/projects/proj/upload-token'' ''tok'' Undefined])
   = (Inr exampleMissing,
      (exampleStore, [requestOf exampleEnv ''GET''
          ''/accounts/acc/pages/projects/proj/upload-token'' ''tok'' Undefined]
        @ [requestOf exampleEnv ''POST'' ''/pages/assets/check-missing''
          ''uploads-jwt'' (Hashes (map hash exampleScan))]))"
    using example_missing by simp
  have mem: "exampleScan ! 1 \<in> set exampleScan" "exampleScan ! 2 \<in> set exampleScan"
    by (simp_all add: exampleScan_def)
  have ne: "exampleScan ! 1 \<noteq> exampleScan ! 2"
    by (simp add: exampleScan_def)
  have h: "hash (exampleScan ! 1) = hash (exampleScan ! 2)"
    by (simp add: exampleScan_def)
  have mi: "hash (exampleScan ! 1) \<in> set exampleMissing"
    by (simp add: exampleScan_def exampleMissing_def)
  have d: "distinct (map publicUrl exampleScan)"
    by (simp add: exampleScan_def)
  from duplicates_are_uploaded_separately[OF example_run example_scan t m mem ne h mi d]
    example_run example_scan mem ne h mi d
  show ?thesis by blast
qed

section \<open>The optional control files\<close>

text \<open>
  When the five stages before it succeed, \<open>upload\<close> ends with the last stage and returns
  what that stage returns.
\<close>

lemma upload_last_stage:
  assumes "findUploadableFiles env fs directory = Inr scanned"
    and "cfApiRequest env (fetch_DirectUploadsJWT remote) ''GET''
           (''/accounts/'' @ accountId @ ''/pages/projects/'' @ projectName @ ''/upload-token'')
           cfToken Undefined s0 = (Inr token, s1)"
    and "cfApiRequest env (fetch_strings remote) ''POST'' ''/pages/assets/check-missing''
           (jwt token) (Hashes (map hash scanned)) s1 = (Inr missingHashes, s2)"
    and "uploadAll env fs (fetch_unknown remote) (jwt token)
           (nonEmpty (uploadBuckets (filesToUpload scanned missingHashes))) s2 = (Inr u, s3)"
    and "cfApiRequest env (fetch_unknown remote) ''POST'' ''/pages/assets/upsert-hashes''
           (jwt token) (Hashes (map hash scanned)) s3 = (Inr u', s4)"
  shows "upload env fs remote cfToken directory accountId projectName git s0
           = createDeployment env fs remote cfToken directory accountId projectName git scanned s4"
  using assms by (simp add: upload_def)

text \<open>
  A rejected read of a control file leaves no field of that name in the form, and the
  form is the one that a missing file gives.
\<close>

lemma formData_read_failure:
  assumes "fileName = ''_redirects'' \<or> fileName = ''_headers''"
    and "readFile_utf8 fs (join env [directory, fileName]) = Inl e"
  shows "fileName \<notin> fst ` set (formData env fs directory git scanned)"
    and "formData env
           (fs\<lparr>readFile_utf8 := (readFile_utf8 fs)
                  (join env [directory, fileName] := Inl (SystemError ''ENOENT''))\<rparr>)
           directory git scanned
         = formData env fs directory git scanned"
  using assms by (auto simp: formData_def optionalFile_def split: sum.splits)

text \<open>The last stage returns the deployment when the remote store accepts the request.\<close>

lemma createDeployment_accepted:
  assumes "fetch_Deployment remote
           (requestOf env ''POST''
              (''/accounts/'' @ accountId @ ''/pages/projects/'' @ projectName @ ''/deployments'')
              cfToken (FormData (formData env fs directory git scanned))) n
         = (Inr response, n')"
    and "ok response" and "json_result response = Inr deployment"
  shows "createDeployment env fs remote cfToken directory accountId projectName git scanned
             (n, sent)
           = (Inr deployment,
              (n', sent @ [requestOf env ''POST''
                 (''/accounts/'' @ accountId @ ''/pages/projects/'' @ projectName @ ''/deployments'')
                 cfToken (FormData (formData env fs directory git scanned))]))"
  using assms by (simp add: createDeployment_def cfApiRequest_def requestOf_def Let_def)

text \<open>
  The scan and the bucket uploads do not read with the encoding \<open>utf8\<close>, so a run in
  which the read of a control file is rejected, with whatever error, is the run in which
  the file is missing.
\<close>

lemma findUploadableFiles_utf8:
  "findUploadableFiles env (fs\<lparr>readFile_utf8 := g\<rparr>) dir = findUploadableFiles env fs dir"
proof -
  have "uploadableFile env (fs\<lparr>readFile_utf8 := g\<rparr>) d = uploadableFile env fs d" for d
    by (rule ext) (simp add: uploadableFile_def Let_def cong: sum.case_cong)
  then show ?thesis by (simp add: findUploadableFiles_def Let_def cong: sum.case_cong)
qed

lemma uploadAll_utf8:
  "uploadAll env (fs\<lparr>readFile_utf8 := g\<rparr>) fetch uploadsJwt bs s
     = uploadAll env fs fetch uploadsJwt bs s"
proof -
  have "payloadEntry (fs\<lparr>readFile_utf8 := g\<rparr>) = payloadEntry fs"
    by (rule ext) (simp add: payloadEntry_def)
  then have "uploadBucket env (fs\<lparr>readFile_utf8 := g\<rparr>) fetch uploadsJwt b t
               = uploadBucket env fs fetch uploadsJwt b t" for b t
    by (simp add: uploadBucket_def cong: sum.case_cong)
  then show ?thesis by (induction bs arbitrary: s) simp_all
qed

lemma upload_read_failure:
  assumes "fileName = ''_redirects'' \<or> fileName = ''_headers''"
    and "readFile_utf8 fs (join env [directory, fileName]) = Inl e"
  shows "upload env
           (fs\<lparr>readFile_utf8 := (readFile_utf8 fs)
                  (join env [directory, fileName] := Inl (SystemError ''ENOENT''))\<rparr>)
           remote cfToken directory accountId projectName git s0
         = upload env fs remote cfToken directory accountId projectName git s0"
  unfolding upload_def createDeployment_def
  by (simp only: findUploadableFiles_utf8 uploadAll_utf8 formData_read_failure(2)[OF assms])

text \<open>
  Claim C9. When reading \<open>_redirects\<close> or \<open>_headers\<close> at the scan root is rejected, with
  any error whatever (not only a missing file), the form has no field of that name and no
  error comes out of \<open>upload\<close>: in a run whose earlier stages succeed the deployment
  request is still sent, with that form, and when the remote store accepts it \<open>upload\<close>
  returns the deployment. The whole run is the run that a missing file gives.
\<close>

theorem control_file_read_failure_is_swallowed:
  assumes "fileName = ''_redirects'' \<or> fileName = ''_headers''"
    and "readFile_utf8 fs (join env [directory, fileName]) = Inl e"
    and "findUploadableFiles env fs directory = Inr scanned"
    and "cfApiRequest env (fetch_DirectUploadsJWT remote) ''GET''
           (''/accounts/'' @ accountId @ ''/pages/projects/'' @ projectName @ ''/upload-token'')
           cfToken Undefined s0 = (Inr token, s1)"
    and "cfApiRequest env (fetch_strings remote) ''POST'' ''/pages/assets/check-missing''
           (jwt token) (Hashes (map hash scanned)) s1 = (Inr missingHashes, s2)"
    and "uploadAll env fs (fetch_unknown remote) (jwt token)
           (nonEmpty (uploadBuckets (filesToUpload scanned missingHashes))) s2 = (Inr u, s3)"
    and "cfApiRequest env (fetch_unknown remote) ''POST'' ''/pages/assets/upsert-hashes''
           (jwt token) (Hashes (map hash scanned)) s3 = (Inr u', (n, sent))"
    and "fetch_Deployment remote
           (requestOf env ''POST''
              (''/accounts/'' @ accountId @ ''/pages/projects/'' @ projectName @ ''/deployments'')
              cfToken (FormData (formData env fs directory git scanned))) n
         = (Inr response, n')"
    and "ok response" and "json_result response = Inr deployment"
  shows "fileName \<notin> fst ` set (formData env fs directory git scanned) \<and>
         upload env fs remote cfToken directory accountId projectName git s0
           = (Inr deployment,
              (n', sent @ [requestOf env ''POST''
                 (''/accounts/'' @ accountId @ ''/pages/projects/'' @ projectName @ ''/deployments'')
                 cfToken (FormData (formData env fs directory git scanned))])) \<and>
         upload env fs remote cfToken directory accountId projectName git s0
           = upload env
               (fs\<lparr>readFile_utf8 := (readFile_utf8 fs)
                      (join env [directory, fileName] := Inl (SystemError ''ENOENT''))\<rparr>)
               remote cfToken directory accountId projectName git s0"
proof -
  have field: "fileName \<notin> fst ` set (formData env fs directory git scanned)"
    using assms(1,2) by (rule formData_read_failure(1))
  have "upload env fs remote cfToken directory accountId projectName git s0
      = createDeployment env fs remote cfToken directory accountId projectName git scanned
          (n, sent)"
    using assms(3-7) by (rule upload_last_stage)
  also have "\<dots> = (Inr deployment,
              (n', sent @ [requestOf env ''POST''
                 (''/accounts/'' @ accountId @ ''/pages/projects/'' @ projectName @ ''/deployments'')
                 cfToken (FormData (formData env fs directory git scanned))]))"
    using assms(8-10) by (rule createDeployment_accepted)
  finally have run: "upload env fs remote cfToken directory accountId projectName git s0
           = (Inr deployment,
              (n', sent @ [requestOf env ''POST''
                 (''/accounts/'' @ accountId @ ''/pages/projects/'' @ projectName @ ''/deployments'')
                 cfToken (FormData (formData env fs directory git scanned))]))" .
  from field run upload_read_failure[OF assms(1,2), symmetric] show ?thesis by blast
qed


theorem control_file_read_failure_is_swallowed_witness:
  "(''_redirects'' = ''_redirects'' \<or> ''_redirects'' = ''_headers'') \<and>
   readFile_utf8 exampleFs (join exampleEnv [''/site'', ''_redirects''])
     = Inl (SystemError ''EACCES'') \<and>
   findUploadableFiles exampleEnv exampleFs ''/site'' = Inr exampleScan \<and>
   cfApiRequest exampleEnv (fetch_DirectUploadsJWT exampleRemote) ''GET''
       (''/accounts/'' @ ''acc'' @ ''/pages/projects/'' @ ''proj'' @ ''/upload-token'')
       ''tok'' Undefined (exampleStore, [])
     = (Inr \<lparr>jwt = ''uploads-jwt''\<rparr>, (exampleStore, take 1 exampleSent)) \<and>
   cfApiRequest exampleEnv (fetch_strings exampleRemote) ''POST'' ''/pages/assets/check-missing''
       (jwt \<lparr>jwt = ''uploads-jwt''\<rparr>) (Hashes (map hash exampleScan))
       (exampleStore, take 1 exampleSent)
     = (Inr exampleMissing, (exampleStore, take 2 exampleSent)) \<and>
   uploadAll exampleEnv exampleFs (fetch_unknown exampleRemote) (jwt \<lparr>jwt = ''uploads-jwt''\<rparr>)
       (nonEmpty (uploadBuckets (filesToUpload exampleScan exampleMissing)))
       (exampleStore, take 2 exampleSent)
     = (Inr (), (exampleStore @ map key (concat examplePayloads), take 5 exampleSent)) \<and>
   cfApiRequest exampleEnv (fetch_unknown exampleRemote) ''POST'' ''/pages/assets/upsert-hashes''
       (jwt \<lparr>jwt = ''uploads-jwt''\<rparr>) (Hashes (map hash exampleScan))
       (exampleStore @ map key (concat examplePayloads), take 5 exampleSent)
     = (Inr (), (exampleStore @ map key (concat examplePayloads), take 6 exampleSent)) \<and>
   fetch_Deployment exampleRemote
       (requestOf exampleEnv ''POST''
          (''/accounts/'' @ ''acc'' @ ''/pages/projects/'' @ ''proj'' @ ''/deployments'')
          ''tok'' (FormData (formData exampleEnv exampleFs ''/site'' exampleGit exampleScan)))
       (exampleStore @ map key (concat examplePayloads))
     = (Inr \<lparr>status = 200, text_response = [], json_result = Inr ''deployment-4''\<rparr>,
        exampleStore @ map key (concat examplePayloads)) \<and>
   ok \<lparr>status = 200, text_response = [], json_result = Inr ''deployment-4'' :: error + string\<rparr> \<and>
   formData exampleEnv exampleFs ''/site'' exampleGit exampleScan = exampleForm \<and>
   ''_redirects'' \<notin> fst ` set (formData exampleEnv exampleFs ''/site'' exampleGit exampleScan) \<and>
   upload exampleEnv exampleFs exampleRemote ''tok'' ''/site'' ''acc'' ''proj'' exampleGit
       (exampleStore, [])
     = (Inr ''deployment-4'',
        (exampleStore @ map key (concat examplePayloads),
         take 6 exampleSent @ [requestOf exampleEnv ''POST''
           (''/accounts/'' @ ''acc'' @ ''/pages/projects/'' @ ''proj'' @ ''/deployments'')
           ''tok'' (FormData (formData exampleEnv exampleFs ''/site'' exampleGit exampleScan))]))"
proof -
  let ?response = "\<lparr>status = 200, text_response = [],
                     json_result = Inr ''deployment-4'' :: error + string\<rparr>"
  have n: "''_redirects'' = ''_redirects'' \<or> ''_redirects'' = ''_headers''" by simp
  have r: "readFile_utf8 exampleFs (join exampleEnv [''/site'', ''_redirects''])
             = Inl (SystemError ''EACCES'')"
    by (simp add: example_simps)
  have t: "cfApiRequest exampleEnv (fetch_DirectUploadsJWT exampleRemote) ''GET''
       (''/accounts/'' @ ''acc'' @ ''/pages/projects/'' @ ''proj'' @ ''/upload-token'')
       ''tok'' Undefined (exampleStore, [])
     = (Inr \<lparr>jwt = ''uploads-jwt''\<rparr>, (exampleStore, take 1 exampleSent))"
    using example_token by (simp add: exampleSent_def)
  have m: "cfApiRequest exampleEnv (fetch_strings exampleRemote) ''POST''
       ''/pages/assets/check-missing'' (jwt \<lparr>jwt = ''uploads-jwt''\<rparr>)
       (Hashes (map hash exampleScan)) (exampleStore, take 1 exampleSent)
     = (Inr exampleMissing, (exampleStore, take 2 exampleSent))"
    by (simp add: example_missing exampleSent_def)
  have up: "uploadAll exampleEnv exampleFs (fetch_unknown exampleRemote)
       (jwt \<lparr>jwt = ''uploads-jwt''\<rparr>)
       (nonEmpty (uploadBuckets (filesToUpload exampleScan exampleMissing)))
       (exampleStore, take 2 exampleSent)
     = (Inr (), (exampleStore @ map key (concat examplePayloads), take 5 exampleSent))"
    by (simp add: example_buckets example_uploads exampleSent_def examplePayloads_def
        del: uploadAll.simps)
  have h: "cfApiRequest exampleEnv (fetch_unknown exampleRemote) ''POST''
       ''/pages/assets/upsert-hashes'' (jwt \<lparr>jwt = ''uploads-jwt''\<rparr>)
       (Hashes (map hash exampleScan))
       (exampleStore @ map key (concat examplePayloads), take 5 exampleSent)
     = (Inr (), (exampleStore @ map key (concat examplePayloads), take 6 exampleSent))"
    by (simp add: example_upsert exampleSent_def examplePayloads_def)
  have "length exampleStore + length (concat examplePayloads) = 4"
    by (simp add: exampleStore_def examplePayloads_def)
  then have four:
    "toString_number (length exampleStore + length (concat examplePayloads)) = ''4''"
    by (simp only: toString_number.simps[of 4]) simp
  have f: "fetch_Deployment exampleRemote
       (requestOf exampleEnv ''POST''
          (''/accounts/'' @ ''acc'' @ ''/pages/projects/'' @ ''proj'' @ ''/deployments'')
          ''tok'' (FormData (formData exampleEnv exampleFs ''/site'' exampleGit exampleScan)))
       (exampleStore @ map key (concat examplePayloads))
     = (Inr ?response, exampleStore @ map key (concat examplePayloads))"
    by (simp add: exampleRemote_def four)
  have o: "ok ?response" by (simp add: ok_def)
  have j: "json_result ?response = Inr ''deployment-4''" by simp
  from control_file_read_failure_is_swallowed[OF n r example_scan t m up h f o j]
    n r example_scan t m up h f o example_form
  show ?thesis by blast
qed

end
